theory Spec2Isabelle
  imports Complex_Main "HOL-Library.AList"
begin

section \<open>The Event Hub load generator\<close>

text \<open>
  A shallow embedding of \<^verbatim>\<open>eventhub_simulator.py\<close>: the split of the target
  rate over the workers, the worker's batch plan and loop, the wrapper around the sink,
  the shared statistics with the reporter and the shutdown event, and the message
  generator with the JSON text it writes. Python's unbounded integers are \<open>int\<close>
  (\<open>//\<close> is \<open>div\<close>: both round towards minus infinity), strings are \<open>string\<close>, a
  dictionary read with \<^verbatim>\<open>.get(key, default)\<close> is a map, and every exception the
  modelled code can raise is a value of \<open>py_error\<close>. Durations are seconds, written as
  exact rationals: the float the program holds is the double nearest to the quotient
  written here. What the program takes from outside (the Event Hub SDK, the random
  numbers, the clock, the order in which the event loop resumes its tasks) is an argument
  of the functions below.
\<close>

datatype py_error =
  ZeroDivisionError | ValueError | TypeError | IndexError | OverflowError | MemoryError |
  CancelledError | SinkError

subsection \<open>Configuration\<close>

text \<open>
  \<^verbatim>\<open>simulator_config = config.get('simulator', {})\<close> is a dictionary of
  integers; a key that is absent takes the default given at the place of use.
\<close>

type_synonym simulator_config = "string \<rightharpoonup> int"

definition get :: "(string \<rightharpoonup> 'a) \<Rightarrow> string \<Rightarrow> 'a \<Rightarrow> 'a" where
  "get d k dflt = (case d k of None \<Rightarrow> dflt | Some v \<Rightarrow> v)"

subsection \<open>The engine's split of the rate (\<^verbatim>\<open>main\<close>)\<close>

text \<open>
  \<^verbatim>\<open>num_workers = min(max_workers, max(1, args.rate // 1000))\<close> and
  \<^verbatim>\<open>rate_per_worker = args.rate // num_workers\<close>; the division raises
  \<^verbatim>\<open>ZeroDivisionError\<close> when \<open>num_workers\<close> is zero.
\<close>

definition max_workers :: "simulator_config \<Rightarrow> int" where
  "max_workers simulator_config = get simulator_config ''max_workers'' 50"

definition num_workers :: "simulator_config \<Rightarrow> int \<Rightarrow> int" where
  "num_workers simulator_config rate =
     min (max_workers simulator_config) (max 1 (rate div 1000))"

definition rate_per_worker :: "simulator_config \<Rightarrow> int \<Rightarrow> py_error + int" where
  "rate_per_worker simulator_config rate =
     (if num_workers simulator_config rate = 0 then Inl ZeroDivisionError
      else Inr (rate div num_workers simulator_config rate))"

subsection \<open>The worker's batch plan (\<^verbatim>\<open>message_sender_worker\<close>, before its loop)\<close>

definition min_batch :: "simulator_config \<Rightarrow> int" where
  "min_batch simulator_config = get simulator_config ''min_batch_size'' 1"

definition max_batch :: "simulator_config \<Rightarrow> int" where
  "max_batch simulator_config = get simulator_config ''max_batch_size'' 1000"

definition batch_size_per_1k :: "simulator_config \<Rightarrow> int" where
  "batch_size_per_1k simulator_config = get simulator_config ''batch_size_per_1k_rate'' 100"

definition target_batch :: "simulator_config \<Rightarrow> int \<Rightarrow> int" where
  "target_batch simulator_config rate =
     (if rate > 0 then rate div 10 else batch_size_per_1k simulator_config)"

definition batch_size :: "simulator_config \<Rightarrow> int \<Rightarrow> int" where
  "batch_size simulator_config rate =
     max (min_batch simulator_config)
       (min (max_batch simulator_config) (target_batch simulator_config rate))"

definition sleep_time :: "simulator_config \<Rightarrow> int \<Rightarrow> rat" where
  "sleep_time simulator_config rate =
     (if rate > 0 then of_int (batch_size simulator_config rate) / of_int rate else 1 / 100)"

text \<open>
  The clamp of the specification, in its own words: a value below the lower bound becomes
  the lower bound, a value above the upper bound becomes the upper bound, any other value
  is kept.
\<close>

definition clamp :: "int \<Rightarrow> int \<Rightarrow> int \<Rightarrow> int" where
  "clamp x lo hi = (if x < lo then lo else if hi < x then hi else x)"

subsection \<open>The shared statistics (the global \<^verbatim>\<open>stats\<close> dictionary)\<close>

text \<open>
  Times are readings of \<^verbatim>\<open>time.time()\<close>; \<open>None\<close> is Python's \<^verbatim>\<open>None\<close>.
\<close>

record stats =
  total_sent :: int
  last_second_count :: int
  start_time :: "rat option"
  last_stats_time :: "rat option"

definition initial_stats :: stats where
  "initial_stats =
     \<lparr>total_sent = 0, last_second_count = 0, start_time = None, last_stats_time = None\<rparr>"

text \<open>
  The two statements by which a worker records a count
  (\<^verbatim>\<open>stats['total_sent'] += sent_count; stats['last_second_count'] += sent_count\<close>).
\<close>

definition worker_update :: "int \<Rightarrow> stats \<Rightarrow> stats" where
  "worker_update sent_count st =
     st\<lparr>total_sent := total_sent st + sent_count,
        last_second_count := last_second_count st + sent_count\<rparr>"

subsection \<open>The sink (\<^verbatim>\<open>EventHubSender.send_batch\<close>)\<close>

text \<open>
  The Event Hub SDK is outside the repository: what each call on the producer does
  during one \<^verbatim>\<open>send_batch\<close> is a parameter. An awaited call completes, raises an
  \<^verbatim>\<open>Exception\<close>, or is cancelled (\<^verbatim>\<open>CancelledError\<close>, which is not an
  \<^verbatim>\<open>Exception\<close>). \<open>accepts b m\<close> tells whether \<^verbatim>\<open>EventDataBatch.add\<close>
  takes message \<open>m\<close> into a batch holding \<open>b\<close>; where it does not, the SDK raises
  \<^verbatim>\<open>ValueError\<close>.
\<close>

datatype outcome = Completes | Raises | Cancelled

record producer =
  create_batch :: "nat \<Rightarrow> outcome"
  accepts :: "string list \<Rightarrow> string \<Rightarrow> bool"
  send :: "nat \<Rightarrow> outcome"
  close :: outcome

text \<open>
  An exception leaves \<^verbatim>\<open>send_batch\<close> with some batches already handed to the
  service: the model keeps them beside the exception. \<open>await oc handed continue\<close> is an
  awaited call made when the batches \<open>handed\<close> had been sent; a call that raises or is
  cancelled hands nothing over itself.
\<close>

type_synonym 'a attempt = "py_error \<times> string list list + 'a"

definition await :: "outcome \<Rightarrow> string list list \<Rightarrow> 'a attempt \<Rightarrow> 'a attempt" where
  "await oc handed continue =
     (case oc of
        Completes \<Rightarrow> continue
      | Raises \<Rightarrow> Inl (SinkError, handed)
      | Cancelled \<Rightarrow> Inl (CancelledError, handed))"

text \<open>
  The state of the \<^verbatim>\<open>for message in messages\<close> loop: the batch being filled, how
  many batches were created and sent so far, and the batches handed to the service (those
  whose \<^verbatim>\<open>producer.send_batch\<close> completed).
\<close>

record sending =
  event_data_batch :: "string list"
  created :: nat
  sent :: nat
  delivered :: "string list list"

fun add_messages :: "producer \<Rightarrow> string list \<Rightarrow> sending \<Rightarrow> sending attempt" where
  "add_messages p [] s = Inr s"
| "add_messages p (message # messages) s =
     (if accepts p (event_data_batch s) message
      then add_messages p messages (s\<lparr>event_data_batch := event_data_batch s @ [message]\<rparr>)
      else await (send p (sent s)) (delivered s)
             (await (create_batch p (created s)) (delivered s @ [event_data_batch s])
                (if accepts p [] message
                 then add_messages p messages
                        \<lparr>event_data_batch = [message], created = Suc (created s),
                         sent = Suc (sent s),
                         delivered = delivered s @ [event_data_batch s]\<rparr>
                 else Inl (ValueError, delivered s @ [event_data_batch s]))))"

text \<open>
  What \<^verbatim>\<open>send_batch\<close> returns, with what it did: the count, whether it logged an
  error, and the batches it had handed to the service when it returned.
\<close>

record send_result =
  sent_count :: int
  error_logged :: bool
  sub_batches :: "string list list"

text \<open>The body of the \<^verbatim>\<open>async with self.producer\<close> block.\<close>

definition send_batch_body :: "producer \<Rightarrow> string list \<Rightarrow> send_result attempt" where
  "send_batch_body p messages =
     await (create_batch p 0) []
       (case add_messages p messages
               \<lparr>event_data_batch = [], created = 1, sent = 0, delivered = []\<rparr> of
          Inl e \<Rightarrow> Inl e
        | Inr s \<Rightarrow>
            if length (event_data_batch s) > 0
            then await (send p (sent s)) (delivered s)
                   (Inr \<lparr>sent_count = int (length messages), error_logged = False,
                        sub_batches = delivered s @ [event_data_batch s]\<rparr>)
            else Inr \<lparr>sent_count = int (length messages), error_logged = False,
                      sub_batches = delivered s\<rparr>)"

text \<open>
  Leaving the block closes the producer, whatever the body did; an exception of the
  close replaces the body's. \<^verbatim>\<open>except Exception\<close> logs and returns 0, also
  when batches have been sent; a \<^verbatim>\<open>CancelledError\<close> passes through it.
\<close>

definition handed_to_service :: "send_result attempt \<Rightarrow> string list list" where
  "handed_to_service a = (case a of Inl (e, handed) \<Rightarrow> handed | Inr r \<Rightarrow> sub_batches r)"

definition send_batch :: "producer \<Rightarrow> string list \<Rightarrow> send_result attempt" where
  "send_batch p messages =
     (let body = send_batch_body p messages
      in case await (close p) (handed_to_service body) body of
           Inr r \<Rightarrow> Inr r
         | Inl (e, handed) \<Rightarrow>
             if e = CancelledError then Inl (CancelledError, handed)
             else Inr \<lparr>sent_count = 0, error_logged = True, sub_batches = handed\<rparr>)"

subsection \<open>The worker (\<^verbatim>\<open>message_sender_worker\<close>)\<close>

text \<open>
  What the worker meets in one pass of its loop: whether it sees the shutdown event set,
  what the calls of \<^verbatim>\<open>message_generator.generate_message()\<close> return (the generator
  is an argument of the worker), how the producer behaves, and whether the worker is
  cancelled while it sleeps.
\<close>

record iteration =
  shutdown_seen :: bool
  generated :: "nat \<Rightarrow> py_error + string"
  sink :: producer
  cancelled_asleep :: bool

datatype event =
  Generated "string list" | Submitted "string list list" | LogError string | Sleep rat

datatype status = Running | Exited

primrec collect :: "(py_error + 'a) list \<Rightarrow> py_error + 'a list" where
  "collect [] = Inr []"
| "collect (r # rs) =
     (case r of Inl e \<Rightarrow> Inl e
      | Inr x \<Rightarrow> (case collect rs of Inl e \<Rightarrow> Inl e | Inr xs \<Rightarrow> Inr (x # xs)))"

text \<open>\<^verbatim>\<open>[message_generator.generate_message() for _ in range(batch_size)]\<close>\<close>

definition generate_batch :: "(nat \<Rightarrow> py_error + string) \<Rightarrow> int \<Rightarrow> py_error + string list" where
  "generate_batch gen n = collect (map gen [0..<nat n])"

definition emit :: "event list \<Rightarrow> status \<times> stats \<times> event list \<Rightarrow> status \<times> stats \<times> event list" where
  "emit evs r = (case r of (status, st, trace) \<Rightarrow> (status, st, evs @ trace))"

text \<open>
  The loop, over the passes the worker makes; a list that ends with the worker still in
  its loop ends in \<open>Running\<close>. The result holds the statistics and the trace of what the
  worker did. \<^verbatim>\<open>except asyncio.CancelledError: break\<close> stands before
  \<^verbatim>\<open>except Exception\<close>: a cancellation, wherever in the pass it is raised, ends
  the loop with no log and no pause; any other exception is logged and followed by the
  pause of 100 ms, during which the worker may be cancelled.
\<close>

fun message_sender_worker ::
  "simulator_config \<Rightarrow> int \<Rightarrow> iteration list \<Rightarrow> stats \<Rightarrow> status \<times> stats \<times> event list" where
  "message_sender_worker cfg rate [] st = (Running, st, [])"
| "message_sender_worker cfg rate (it # its) st =
     (if shutdown_seen it then (Exited, st, [])
      else
        (case generate_batch (generated it) (batch_size cfg rate) of
           Inl e \<Rightarrow>
             (if e = CancelledError then (Exited, st, [])
              else if cancelled_asleep it then (Exited, st, [LogError ''Worker error''])
              else emit [LogError ''Worker error'', Sleep (1 / 10)]
                     (message_sender_worker cfg rate its st))
         | Inr messages \<Rightarrow>
             (case send_batch (sink it) messages of
                Inl (e, handed) \<Rightarrow> (Exited, st, [Generated messages, Submitted handed])
              | Inr r \<Rightarrow>
                  (let st' = worker_update (sent_count r) st;
                       evs = [Generated messages, Submitted (sub_batches r)] @
                             (if error_logged r then [LogError ''Error sending batch''] else [])
                   in if sleep_time cfg rate > 0
                      then (if cancelled_asleep it then (Exited, st', evs)
                            else emit (evs @ [Sleep (sleep_time cfg rate)])
                                   (message_sender_worker cfg rate its st'))
                      else emit evs (message_sender_worker cfg rate its st')))))"

subsection \<open>The reporter, the signal handler and the final statistics\<close>

record report =
  elapsed :: rat
  current_rate :: int
  avg_rate :: rat
  total :: int

text \<open>The first two statements of \<^verbatim>\<open>stats_reporter\<close>.\<close>

definition stats_reporter_start :: "rat \<Rightarrow> stats \<Rightarrow> stats" where
  "stats_reporter_start now st = st\<lparr>start_time := Some now, last_stats_time := Some now\<rparr>"

text \<open>
  One pass of the reporter's loop after its sleep, at time \<open>current_time\<close>: the line it
  prints and the statistics it leaves. Subtracting \<^verbatim>\<open>None\<close> is a
  \<^verbatim>\<open>TypeError\<close>.
\<close>

definition stats_reporter_tick :: "rat \<Rightarrow> stats \<Rightarrow> py_error + report \<times> stats" where
  "stats_reporter_tick current_time st =
     (case start_time st of
        None \<Rightarrow> Inl TypeError
      | Some t0 \<Rightarrow>
          (let elapsed = current_time - t0;
               current_rate = last_second_count st;
               avg_rate = (if elapsed > 0 then of_int (total_sent st) / elapsed else 0)
           in Inr (\<lparr>elapsed = elapsed, current_rate = current_rate, avg_rate = avg_rate,
                     total = total_sent st\<rparr>,
                   st\<lparr>last_second_count := 0, last_stats_time := Some current_time\<rparr>)))"

text \<open>
  The \<^verbatim>\<open>finally\<close> block of \<^verbatim>\<open>main\<close>: a start time that is
  \<^verbatim>\<open>None\<close> or zero counts as false. The report's \<open>current_rate\<close> is not printed
  there and is left 0.
\<close>

definition final_statistics :: "rat \<Rightarrow> stats \<Rightarrow> report" where
  "final_statistics now st =
     (let elapsed = (case start_time st of None \<Rightarrow> 0
                     | Some t0 \<Rightarrow> if t0 = 0 then 0 else now - t0);
          avg_rate = (if elapsed > 0 then of_int (total_sent st) / elapsed else 0)
      in \<lparr>elapsed = elapsed, current_rate = 0, avg_rate = avg_rate, total = total_sent st\<rparr>)"

text \<open>
  The process-wide state: the shutdown event, the statistics, and what was printed.
\<close>

datatype printed = Shutdown_notice | Report_line report | Final_lines report

record globals =
  shutdown_event :: bool
  shared :: stats
  console :: "printed list"

definition signal_handler :: "globals \<Rightarrow> globals" where
  "signal_handler g = g\<lparr>console := console g @ [Shutdown_notice], shutdown_event := True\<rparr>"

text \<open>
  Every statement of the program that touches the process-wide state, as one operation
  each: a worker recording what \<^verbatim>\<open>send_batch\<close> returned, the reporter starting and
  ticking, the signal handler, the end of the configured duration
  (\<^verbatim>\<open>shutdown_event.set()\<close> in \<^verbatim>\<open>main\<close>), and the final statistics.
\<close>

datatype operation =
  Worker_records producer "string list"
| Reporter_starts rat
| Reporter_ticks rat
| Signal
| Duration_elapsed
| Final_statistics rat

definition accepted :: "producer \<Rightarrow> string list \<Rightarrow> int" where
  "accepted p messages =
     (case send_batch p messages of Inl e \<Rightarrow> 0 | Inr r \<Rightarrow> sent_count r)"

fun perform :: "operation \<Rightarrow> globals \<Rightarrow> globals" where
  "perform (Worker_records p messages) g =
     (case send_batch p messages of
        Inl e \<Rightarrow> g
      | Inr r \<Rightarrow> g\<lparr>shared := worker_update (sent_count r) (shared g)\<rparr>)"
| "perform (Reporter_starts now) g = g\<lparr>shared := stats_reporter_start now (shared g)\<rparr>"
| "perform (Reporter_ticks now) g =
     (case stats_reporter_tick now (shared g) of
        Inl e \<Rightarrow> g
      | Inr (line, st) \<Rightarrow> g\<lparr>shared := st, console := console g @ [Report_line line]\<rparr>)"
| "perform Signal g = signal_handler g"
| "perform Duration_elapsed g = g\<lparr>shutdown_event := True\<rparr>"
| "perform (Final_statistics now) g =
     g\<lparr>console := console g @ [Final_lines (final_statistics now (shared g))]\<rparr>"

definition run :: "operation list \<Rightarrow> globals \<Rightarrow> globals" where
  "run ops g = foldl (\<lambda>g op. perform op g) g ops"

fun recorded :: "operation \<Rightarrow> int" where
  "recorded (Worker_records p messages) = accepted p messages"
| "recorded _ = 0"

subsection \<open>Concurrent callers of the update\<close>

text \<open>
  The workers are coroutines of one asyncio event loop: a task runs from one
  \<^verbatim>\<open>await\<close> to the next without interruption, and the loop then resumes any
  task. An augmented assignment \<^verbatim>\<open>stats[key] += n\<close> reads the entry and then
  writes the sum, two steps with the value read held by the task in between.
\<close>

datatype instr = Read_total | Write_total int | Read_window | Write_window int | Await

fun exec :: "instr \<Rightarrow> int \<times> stats \<Rightarrow> int \<times> stats" where
  "exec Read_total (reg, st) = (total_sent st, st)"
| "exec (Write_total n) (reg, st) = (reg, st\<lparr>total_sent := reg + n\<rparr>)"
| "exec Read_window (reg, st) = (last_second_count st, st)"
| "exec (Write_window n) (reg, st) = (reg, st\<lparr>last_second_count := reg + n\<rparr>)"
| "exec Await (reg, st) = (reg, st)"

text \<open>
  A resumed task runs its instructions up to and including its next \<^verbatim>\<open>await\<close>.
\<close>

fun resume :: "instr list \<Rightarrow> int \<times> stats \<Rightarrow> instr list \<times> int \<times> stats" where
  "resume [] c = ([], c)"
| "resume (Await # prog) c = (prog, c)"
| "resume (i # prog) c = resume prog (exec i c)"

text \<open>
  The two statements by which the worker records a count, followed by the
  \<^verbatim>\<open>await\<close> of the sleep: there is no \<^verbatim>\<open>await\<close> between a read and
  its write. A caller makes \<open>m\<close> such updates of 1.
\<close>

definition add_sent :: "int \<Rightarrow> instr list" where
  "add_sent n = [Read_total, Write_total n, Read_window, Write_window n, Await]"

definition caller :: "nat \<Rightarrow> instr list" where
  "caller m = concat (replicate m (add_sent 1))"

text \<open>
  A schedule names, step by step, the task the event loop resumes; a task that has
  finished does nothing when it is named. \<open>spawn k m\<close> are \<open>k\<close> callers of \<open>m\<close>
  updates each.
\<close>

record task =
  program :: "instr list"
  register :: int

fun run_tasks :: "nat list \<Rightarrow> (nat \<Rightarrow> task) \<Rightarrow> stats \<Rightarrow> (nat \<Rightarrow> task) \<times> stats" where
  "run_tasks [] tasks st = (tasks, st)"
| "run_tasks (i # schedule) tasks st =
     (case resume (program (tasks i)) (register (tasks i), st) of
        (prog, reg, st') \<Rightarrow>
          run_tasks schedule (tasks(i := \<lparr>program = prog, register = reg\<rparr>)) st')"

definition spawn :: "nat \<Rightarrow> nat \<Rightarrow> nat \<Rightarrow> task" where
  "spawn k m = (\<lambda>i. \<lparr>program = (if i < k then caller m else []), register = 0\<rparr>)"

definition finished :: "nat \<Rightarrow> (nat \<Rightarrow> task) \<Rightarrow> bool" where
  "finished k tasks = list_all (\<lambda>i. program (tasks i) = []) [0..<k]"

text \<open>
  For contrast, a task that awaits between the read and the write of the total.
\<close>

definition racy :: "instr list" where
  "racy = [Read_total, Await, Write_total 1, Await]"

subsection \<open>Passes of the worker in which the sink fails\<close>

text \<open>
  The batch a pass generates, the passes in which generation succeeds and
  \<^verbatim>\<open>send_batch\<close> meets an exception of the sink, what such a pass had handed to
  the service when the exception came, and the trace of such a pass.
\<close>

definition fresh_batch :: "simulator_config \<Rightarrow> int \<Rightarrow> iteration \<Rightarrow> string list" where
  "fresh_batch cfg rate it =
     (case generate_batch (generated it) (batch_size cfg rate) of
        Inl e \<Rightarrow> [] | Inr messages \<Rightarrow> messages)"

definition sink_fails :: "simulator_config \<Rightarrow> int \<Rightarrow> iteration \<Rightarrow> bool" where
  "sink_fails cfg rate it =
     (\<not> shutdown_seen it \<and> \<not> cancelled_asleep it \<and>
      (case generate_batch (generated it) (batch_size cfg rate) of
         Inl e \<Rightarrow> False
       | Inr messages \<Rightarrow>
           (case send_batch (sink it) messages of Inl e \<Rightarrow> False | Inr r \<Rightarrow> error_logged r)))"

definition handed_over :: "simulator_config \<Rightarrow> int \<Rightarrow> iteration \<Rightarrow> string list list" where
  "handed_over cfg rate it =
     handed_to_service (send_batch (sink it) (fresh_batch cfg rate it))"

definition failed_pass :: "simulator_config \<Rightarrow> int \<Rightarrow> iteration \<Rightarrow> event list" where
  "failed_pass cfg rate it =
     [Generated (fresh_batch cfg rate it), Submitted (handed_over cfg rate it),
      LogError ''Error sending batch''] @
     (if sleep_time cfg rate > 0 then [Sleep (sleep_time cfg rate)] else [])"

text \<open>
  A producer whose \<^verbatim>\<open>create_batch\<close> raises and a pass that meets it; a producer
  whose batches hold two messages, the same with every send after the first raising, and
  a pass that meets the latter with the messages \<^verbatim>\<open>a\<close>, \<^verbatim>\<open>b\<close>,
  \<^verbatim>\<open>c\<close>; a configuration with a minimal batch size of 3.
\<close>

definition failing_sink :: producer where
  "failing_sink = \<lparr>create_batch = (\<lambda>n. Raises), accepts = (\<lambda>b m. True),
      send = (\<lambda>n. Completes), close = Completes\<rparr>"

definition failing_pass :: iteration where
  "failing_pass = \<lparr>shutdown_seen = False, generated = (\<lambda>j. Inr ''{}''), sink = failing_sink,
      cancelled_asleep = False\<rparr>"

definition two_per_batch :: producer where
  "two_per_batch = \<lparr>create_batch = (\<lambda>n. Completes), accepts = (\<lambda>b m. length b < 2),
      send = (\<lambda>n. Completes), close = Completes\<rparr>"

definition second_send_fails :: producer where
  "second_send_fails = \<lparr>create_batch = (\<lambda>n. Completes), accepts = (\<lambda>b m. length b < 2),
      send = (\<lambda>n. if n = 0 then Completes else Raises), close = Completes\<rparr>"

definition half_sent_pass :: iteration where
  "half_sent_pass = \<lparr>shutdown_seen = False,
      generated = (\<lambda>j. Inr ([''a'', ''b'', ''c''] ! (j mod 3))), sink = second_send_fails,
      cancelled_asleep = False\<rparr>"

definition batches_of_3 :: simulator_config where
  "batches_of_3 = [''min_batch_size'' \<mapsto> 3]"

definition cancelled_generation :: iteration where
  "cancelled_generation = \<lparr>shutdown_seen = False, generated = (\<lambda>j. Inl CancelledError),
      sink = two_per_batch, cancelled_asleep = False\<rparr>"

definition idle :: globals where
  "idle = \<lparr>shutdown_event = False, shared = initial_stats, console = []\<rparr>"

subsection \<open>Values and their JSON text (\<^verbatim>\<open>json.dumps\<close> with compact separators)\<close>

text \<open>
  The values the field templates produce are integers, floats, booleans and strings.
  A string is a list of 8-bit characters: code points above 255 are outside the model.
  A float is held as the decimal literal that \<^verbatim>\<open>repr\<close> prints for it, which
  identifies a finite double: fixed notation (sign, integer part, one fraction digit and
  further fraction digits) or scientific notation (sign, leading digit, further digits,
  sign and magnitude of the exponent, printed with at least two digits). Every digit is
  taken modulo 10, so each value of the type is a literal; the type holds more literals
  than there are doubles, and infinities and NaN are not in it.
\<close>

datatype pyfloat =
  Fixed bool nat nat "nat list"
| Scientific bool nat "nat list" bool nat

datatype pyval = PInt int | PFloat pyfloat | PBool bool | PStr string

definition digit_char :: "nat \<Rightarrow> char" where
  "digit_char d = ''0123456789'' ! (d mod 10)"

fun show_nat :: "nat \<Rightarrow> string" where
  "show_nat n = (if n < 10 then [digit_char n] else show_nat (n div 10) @ [digit_char (n mod 10)])"

declare show_nat.simps [simp del]

definition show_int :: "int \<Rightarrow> string" where
  "show_int i = (if i < 0 then CHR ''-'' # show_nat (nat (- i)) else show_nat (nat i))"

definition float_repr :: "pyfloat \<Rightarrow> string" where
  "float_repr x =
     (case x of
        Fixed negative whole d ds \<Rightarrow>
          (if negative then ''-'' else '''') @ show_nat whole @ ''.'' @ map digit_char (d # ds)
      | Scientific negative d ds small e \<Rightarrow>
          (if negative then ''-'' else '''') @ [digit_char d] @
          (if ds = [] then '''' else ''.'' @ map digit_char ds) @
          ''e'' @ (if small then ''-'' else ''+'') @
          (if e < 10 then ''0'' else '''') @ show_nat e)"

text \<open>
  \<^verbatim>\<open>json.dumps\<close> escapes with \<^verbatim>\<open>ensure_ascii\<close>: the quote, the backslash
  and five control characters have short escapes, every other character outside the
  printable ASCII range is written as an escape of four hexadecimal digits. A dictionary
  keeps its keys in the order of insertion and is an association list.
\<close>

definition hex_char :: "nat \<Rightarrow> char" where
  "hex_char d = ''0123456789abcdef'' ! (d mod 16)"

definition escape_char :: "char \<Rightarrow> string" where
  "escape_char c =
     (if c = CHR 0x22 then [CHR 0x5C, CHR 0x22]
      else if c = CHR 0x5C then [CHR 0x5C, CHR 0x5C]
      else if c = CHR 0x0A then [CHR 0x5C, CHR ''n'']
      else if c = CHR 0x0D then [CHR 0x5C, CHR ''r'']
      else if c = CHR 0x09 then [CHR 0x5C, CHR ''t'']
      else if c = CHR 0x08 then [CHR 0x5C, CHR ''b'']
      else if c = CHR 0x0C then [CHR 0x5C, CHR ''f'']
      else if (of_char c :: nat) < 32 \<or> (of_char c :: nat) > 126
        then [CHR 0x5C, CHR ''u'', CHR ''0'', CHR ''0'',
              hex_char (of_char c div 16), hex_char (of_char c mod 16)]
      else [c])"

definition dumps_str :: "string \<Rightarrow> string" where
  "dumps_str s = CHR 0x22 # concat (map escape_char s) @ [CHR 0x22]"

definition dumps_value :: "pyval \<Rightarrow> string" where
  "dumps_value v =
     (case v of
        PInt i \<Rightarrow> show_int i
      | PFloat x \<Rightarrow> float_repr x
      | PBool b \<Rightarrow> (if b then ''true'' else ''false'')
      | PStr s \<Rightarrow> dumps_str s)"

fun dumps_items :: "(string \<times> pyval) list \<Rightarrow> string" where
  "dumps_items [] = []"
| "dumps_items [(k, v)] = dumps_str k @ '':'' @ dumps_value v"
| "dumps_items ((k, v) # kvs) = dumps_str k @ '':'' @ dumps_value v @ '','' @ dumps_items kvs"

definition dumps :: "(string \<times> pyval) list \<Rightarrow> string" where
  "dumps message = ''{'' @ dumps_items message @ ''}''"

subsection \<open>Reading JSON text\<close>







definition is_digit :: "char \<Rightarrow> bool" where
  "is_digit c = (48 \<le> (of_char c :: nat) \<and> (of_char c :: nat) \<le> 57)"

definition number_char :: "char \<Rightarrow> bool" where
  "number_char c = (is_digit c \<or> c = CHR ''-'' \<or> c = CHR ''+'' \<or> c = CHR ''.'' \<or> c = CHR ''e'' \<or> c = CHR ''E'')"












subsection \<open>The message generator (\<^verbatim>\<open>MessageGenerator\<close>)\<close>

text \<open>
  The object's attributes, and the constructor: the section
  \<^verbatim>\<open>message_generation\<close> of the configuration holds numbers and ranges, each
  read with a default, and an empty list of stock symbols is replaced by the default
  symbols (\<^verbatim>\<open>stock_symbols or [...]\<close>).
\<close>

record message_generator =
  target_size :: int
  stock_symbols :: "string list"
  target_field_count :: int
  field_count_variance :: int
  size_tolerance :: int
  string_length_range :: "int \<times> int"
  number_range :: "int \<times> int"
  float_precision :: int

record message_generation =
  numbers :: "string \<rightharpoonup> int"
  ranges :: "string \<rightharpoonup> int \<times> int"

definition MessageGenerator :: "int \<Rightarrow> string list \<Rightarrow> message_generation \<Rightarrow> message_generator" where
  "MessageGenerator msg_size symbols msg_config =
     \<lparr>target_size = msg_size,
      stock_symbols =
        (if symbols = [] then [''AAPL'', ''GOOGL'', ''MSFT'', ''TSLA'', ''AMZN''] else symbols),
      target_field_count = get (numbers msg_config) ''target_field_count'' 100,
      field_count_variance = get (numbers msg_config) ''field_count_variance'' 5,
      size_tolerance = get (numbers msg_config) ''size_tolerance'' 50,
      string_length_range = get (ranges msg_config) ''string_length_range'' (5, 15),
      number_range = get (ranges msg_config) ''number_range'' (1, 100000),
      float_precision = get (numbers msg_config) ''float_precision'' 2\<rparr>"

text \<open>
  The generator draws from Python's \<^verbatim>\<open>random\<close>. The numbers the library
  produces are inputs of the model: \<^verbatim>\<open>randint(a, b)\<close> raises
  \<^verbatim>\<open>ValueError\<close> on an empty range and otherwise reduces the number it is given
  into the range; \<^verbatim>\<open>choice\<close> takes the element at the number it is given,
  reduced below the length. One \<open>draw\<close> holds what one pass of the loop may consume:
  the template chosen, the number for its \<^verbatim>\<open>randint\<close> or
  \<^verbatim>\<open>choice\<close>, the letters for \<^verbatim>\<open>random.choices\<close>, the float (the
  arithmetic of \<^verbatim>\<open>round(random.uniform(...))\<close> is not modelled, any finite float
  may come), the boolean, the number for the replacement \<^verbatim>\<open>randint(1, 99)\<close>,
  and the exception, if any, with which the interpreter refuses a value beyond its
  limits.
\<close>

definition randint :: "int \<Rightarrow> int \<Rightarrow> nat \<Rightarrow> py_error + int" where
  "randint a b r = (if b < a then Inl ValueError else Inr (a + int r mod (b - a + 1)))"

definition random_choice :: "'a list \<Rightarrow> nat \<Rightarrow> py_error + 'a" where
  "random_choice xs r = (if xs = [] then Inl IndexError else Inr (xs ! (r mod length xs)))"

record draw =
  template :: nat
  number :: nat
  letters :: "nat \<Rightarrow> nat"
  fraction :: pyfloat
  coin :: bool
  smaller :: nat
  raises :: "py_error option"

text \<open>
  The limits of the interpreter. In the float template, \<^verbatim>\<open>max_num / 100\<close> is a
  division of integers with a float result: it raises \<^verbatim>\<open>OverflowError\<close> when
  the quotient is beyond the largest double (below \<open>1.8 * 10 ^ 308\<close>), so certainly
  for a bound of magnitude \<open>10 ^ 311\<close> or more; \<^verbatim>\<open>round\<close> raises it for a
  result beyond the doubles. With a bound of magnitude at most \<open>10 ^ 300\<close> and a
  precision that fits a C \<^verbatim>\<open>int\<close> neither raises. In the string template,
  \<^verbatim>\<open>random.choices\<close> builds a list of \<open>k\<close> letters: a length below
  \<open>2 ^ 31\<close> is within the index type of every platform. In between, what happens
  depends on the platform and is taken from the draw. The exhaustion of memory by a value
  within these limits is not modelled.
\<close>

definition float_within_limits :: "message_generator \<Rightarrow> bool" where
  "float_within_limits self =
     (\<bar>snd (number_range self)\<bar> \<le> 10 ^ 300 \<and> \<bar>float_precision self\<bar> < 2 ^ 31)"

definition quotient_overflows :: "message_generator \<Rightarrow> bool" where
  "quotient_overflows self = (10 ^ 311 \<le> \<bar>snd (number_range self)\<bar>)"

definition length_within_limits :: "int \<Rightarrow> bool" where
  "length_within_limits k = (k < 2 ^ 31)"

definition unless_refused :: "draw \<Rightarrow> pyval \<Rightarrow> py_error + pyval" where
  "unless_refused d v = (case raises d of None \<Rightarrow> Inr v | Some e \<Rightarrow> Inl e)"

text \<open>
  \<^verbatim>\<open>random.choice(self.field_templates)()\<close>: the eight templates of
  \<^verbatim>\<open>_create_field_templates\<close>, in their order. \<^verbatim>\<open>random.choices\<close> with
  a negative \<open>k\<close> returns the empty list.
\<close>

definition alphabet :: string where
  "alphabet = ''abcdefghijklmnopqrstuvwxyzABCDEFGHIJKLMNOPQRSTUVWXYZ0123456789''"

definition statuses :: "string list" where
  "statuses = [''active'', ''inactive'', ''pending'', ''completed'', ''failed'']"

definition field_template :: "message_generator \<Rightarrow> draw \<Rightarrow> py_error + pyval" where
  "field_template self d =
     (let (min_str, max_str) = string_length_range self;
          (min_num, max_num) = number_range self;
          t = template d mod 8
      in if t = 0 then
           (case randint min_num max_num (number d) of Inl e \<Rightarrow> Inl e | Inr n \<Rightarrow> Inr (PInt n))
         else if t = 1 then
           (if float_within_limits self then Inr (PFloat (fraction d))
            else if quotient_overflows self then Inl OverflowError
            else unless_refused d (PFloat (fraction d)))
         else if t = 2 then Inr (PBool (coin d))
         else if t = 3 then
           (case randint min_str max_str (number d) of
              Inl e \<Rightarrow> Inl e
            | Inr k \<Rightarrow>
                (let s = PStr (map (\<lambda>j. alphabet ! (letters d j mod 62)) [0..<nat k])
                 in if length_within_limits k then Inr s else unless_refused d s))
         else if t = 4 then Inr (PStr (statuses ! (number d mod 5)))
         else if t = 5 then Inr (PStr (''user_'' @ show_nat (1000 + number d mod 9000)))
         else if t = 6 then Inr (PStr (''session_'' @ show_nat (100000 + number d mod 900000)))
         else Inr (PInt (1000000000 + int (number d mod 9000000000))))"

text \<open>
  The branch taken when the candidate would exceed the target size; \<open>None\<close> is the
  \<^verbatim>\<open>break\<close>. A Python \<^verbatim>\<open>bool\<close> is an instance of \<^verbatim>\<open>int\<close>.
\<close>

definition isinstance_str :: "pyval \<Rightarrow> bool" where
  "isinstance_str v = (case v of PStr s \<Rightarrow> True | _ \<Rightarrow> False)"

definition isinstance_int_float :: "pyval \<Rightarrow> bool" where
  "isinstance_int_float v = (case v of PStr s \<Rightarrow> False | _ \<Rightarrow> True)"

definition len :: "pyval \<Rightarrow> nat" where
  "len v = (case v of PStr s \<Rightarrow> length s | _ \<Rightarrow> 0)"

definition slice :: "pyval \<Rightarrow> int \<Rightarrow> pyval" where
  "slice v n = (case v of PStr s \<Rightarrow> PStr (take (nat n) s) | _ \<Rightarrow> v)"

definition field_json :: "string \<Rightarrow> pyval \<Rightarrow> string" where
  "field_json field_name field_value =
     [CHR 0x22] @ field_name @ [CHR 0x22] @ '':'' @ dumps_value field_value"

definition smaller_value ::
  "message_generator \<Rightarrow> int \<Rightarrow> nat \<Rightarrow> string \<Rightarrow> pyval \<Rightarrow> nat \<Rightarrow> pyval option" where
  "smaller_value self current_size field_count field_name field_value r =
     (if isinstance_str field_value \<and> len field_value > 5 then
        (let max_str_len = target_size self - current_size - int (length field_name) - 10
         in if max_str_len > 0 then Some (slice field_value max_str_len) else None)
      else if isinstance_int_float field_value \<and> field_count > 10 then
        Some (PInt (1 + int (r mod 99)))
      else None)"

text \<open>
  The \<^verbatim>\<open>while\<close> loop of \<^verbatim>\<open>generate_message\<close>, on the message, the
  running size and the field count. The running size grows by the size of the candidate
  as first drawn, also when a smaller value is stored. The count grows in every pass
  that continues and is bounded by \<open>max_fields\<close>, so the loop ends.
\<close>

function add_fields ::
  "message_generator \<Rightarrow> (nat \<Rightarrow> draw) \<Rightarrow> int \<Rightarrow> (string \<times> pyval) list \<times> int \<times> nat \<Rightarrow>
     py_error + (string \<times> pyval) list" where
  "add_fields self rnd max_fields (message, current_size, field_count) =
     (if current_size < target_size self - size_tolerance self \<and> int field_count < max_fields
      then
        (case field_template self (rnd field_count) of
           Inl e \<Rightarrow> Inl e
         | Inr field_value \<Rightarrow>
             (let field_name = ''field_'' @ show_nat field_count;
                  field_size = int (length (field_json field_name field_value)) + 1
              in if current_size + field_size > target_size self then
                   (case smaller_value self current_size field_count field_name field_value
                           (smaller (rnd field_count)) of
                      None \<Rightarrow> Inr message
                    | Some v \<Rightarrow>
                        add_fields self rnd max_fields
                          (AList.update field_name v message, current_size + field_size,
                           Suc field_count))
                 else
                   add_fields self rnd max_fields
                     (AList.update field_name field_value message, current_size + field_size,
                      Suc field_count)))
      else Inr message)"
  by pat_completeness auto
termination
  by (relation "measure (\<lambda>(self, rnd, max_fields, message, current_size, field_count).
        nat (max_fields - int field_count))") auto

declare add_fields.simps [simp del]

text \<open>
  What one call of \<^verbatim>\<open>generate_message\<close> receives from outside: the timestamp
  \<^verbatim>\<open>datetime.now(timezone.utc).isoformat()\<close> and the random numbers.
\<close>

record randomness =
  timestamp :: string
  stock :: nat
  variance :: nat
  draws :: "nat \<Rightarrow> draw"

definition generate_message :: "message_generator \<Rightarrow> randomness \<Rightarrow> py_error + string" where
  "generate_message self rnd =
     (case random_choice (stock_symbols self) (stock rnd) of
        Inl e \<Rightarrow> Inl e
      | Inr symbol \<Rightarrow>
          (let message = [(''timestamp'', PStr (timestamp rnd)), (''stockName'', PStr symbol)];
               base_json = dumps message;
               current_size = int (length base_json)
           in case randint (- field_count_variance self) (field_count_variance self)
                     (variance rnd) of
                Inl e \<Rightarrow> Inl e
              | Inr delta \<Rightarrow>
                  (case add_fields self (draws rnd) (target_field_count self + delta)
                          (message, current_size, 0) of
                     Inl e \<Rightarrow> Inl e
                   | Inr message' \<Rightarrow> Inr (dumps message'))))"

subsection \<open>What a reader of the message finds, and well-formed generators\<close>



definition well_formed :: "message_generator \<Rightarrow> bool" where
  "well_formed self =
     (stock_symbols self \<noteq> [] \<and> 0 \<le> field_count_variance self \<and>
      fst (number_range self) \<le> snd (number_range self) \<and>
      fst (string_length_range self) \<le> snd (string_length_range self) \<and>
      - (10 ^ 300) \<le> fst (number_range self) \<and> float_within_limits self \<and>
      length_within_limits (snd (string_length_range self)))"

definition plain :: "string \<Rightarrow> bool" where
  "plain s = list_all (\<lambda>c. escape_char c = [c]) s"

text \<open>
  The rule of the specification for a candidate that would overflow, in its own words: a
  string is truncated to fit, and appending stops if no positive length is left; a
  numeric candidate (an integer or a float) is replaced by a two-digit number once at
  least 10 fields have been added; in every other case appending stops.
\<close>

definition smaller_value_spec ::
  "message_generator \<Rightarrow> int \<Rightarrow> nat \<Rightarrow> string \<Rightarrow> pyval \<Rightarrow> nat \<Rightarrow> pyval option" where
  "smaller_value_spec self current_size field_count field_name field_value r =
     (case field_value of
        PStr s \<Rightarrow>
          (let max_str_len = target_size self - current_size - int (length field_name) - 10
           in if max_str_len > 0 then Some (PStr (take (nat max_str_len) s)) else None)
      | PInt i \<Rightarrow> if field_count \<ge> 10 then Some (PInt (10 + int (r mod 90))) else None
      | PFloat x \<Rightarrow> if field_count \<ge> 10 then Some (PInt (10 + int (r mod 90))) else None
      | PBool b \<Rightarrow> None)"

text \<open>
  Concrete inputs: a generator with target size 230 and tolerance 0, one whose
  configured variance is negative, one whose numeric range ends at \<open>10 ^ 400\<close>, a
  call whose first ten candidates are booleans and whose later ones are large integers, a
  call whose candidates are floats, and a draw of the status string
  \<^verbatim>\<open>completed\<close>.
\<close>

definition tight :: message_generator where
  "tight = MessageGenerator 230 [''AAPL'']
     \<lparr>numbers = [''size_tolerance'' \<mapsto> 0], ranges = Map.empty\<rparr>"


definition huge_numbers :: message_generator where
  "huge_numbers = MessageGenerator 500 [''AAPL'']
     \<lparr>numbers = Map.empty, ranges = [''number_range'' \<mapsto> (1, 10 ^ 400)]\<rparr>"

definition ten_flags :: randomness where
  "ten_flags =
     \<lparr>timestamp = ''2024-01-01T00:00:00.000000+00:00'', stock = 0, variance = 5,
      draws = (\<lambda>i. \<lparr>template = (if i < 10 then 2 else 7), number = 3, letters = (\<lambda>j. 0),
                      fraction = Fixed False 0 0 [], coin = True, smaller = 41,
                      raises = None\<rparr>)\<rparr>"

definition floats_only :: randomness where
  "floats_only =
     \<lparr>timestamp = ''2024-01-01T00:00:00.000000+00:00'', stock = 0, variance = 5,
      draws = (\<lambda>i. \<lparr>template = 1, number = 3, letters = (\<lambda>j. 0),
                      fraction = Fixed False 0 0 [], coin = True, smaller = 41,
                      raises = None\<rparr>)\<rparr>"

definition completed :: draw where
  "completed = \<lparr>template = 4, number = 3, letters = (\<lambda>j. 0),
      fraction = Fixed False 0 0 [], coin = True, smaller = 41, raises = None\<rparr>"

section \<open>Theorems\<close>

subsection \<open>The rate split\<close>

text \<open>
  C1, as stated, at a concurrency cap of 0: the worker count is 0, below the floor of 1,
  and the per-worker rate is never computed, the division raises.
\<close>

theorem rate_split_cap_zero:
  "num_workers [''max_workers'' \<mapsto> 0] 10000 = 0 \<and>
   rate_per_worker [''max_workers'' \<mapsto> 0] 10000 = Inl ZeroDivisionError"
  by (simp add: rate_per_worker_def num_workers_def max_workers_def get_def)

text \<open>
  C1, amended: for every rate and every concurrency cap other than 0 the engine computes
  \<open>num_workers = min cap (max 1 (rate div 1000))\<close> and the integer quotient
  \<open>rate div num_workers\<close>; for a cap of at least 1 the worker count is the clamp of
  \<open>rate div 1000\<close> to the range from 1 to the cap. The three examples of the
  specification are instances (the default cap is 50).
\<close>

theorem rate_split:
  "max_workers cfg \<noteq> 0 \<Longrightarrow>
     num_workers cfg rate = min (max_workers cfg) (max 1 (rate div 1000)) \<and>
     rate_per_worker cfg rate = Inr (rate div num_workers cfg rate) \<and>
     (1 \<le> max_workers cfg \<longrightarrow>
        num_workers cfg rate = clamp (rate div 1000) 1 (max_workers cfg) \<and>
        1 \<le> num_workers cfg rate \<and> num_workers cfg rate \<le> max_workers cfg)"
proof -
  assume cap: "max_workers cfg \<noteq> 0"
  have n: "num_workers cfg rate = min (max_workers cfg) (max 1 (rate div 1000))"
    by (simp add: num_workers_def)
  have "num_workers cfg rate \<noteq> 0"
    using cap by (simp add: n min_def max_def)
  then have r: "rate_per_worker cfg rate = Inr (rate div num_workers cfg rate)"
    by (simp add: rate_per_worker_def)
  have "num_workers cfg rate = clamp (rate div 1000) 1 (max_workers cfg) \<and>
        1 \<le> num_workers cfg rate \<and> num_workers cfg rate \<le> max_workers cfg"
    if "1 \<le> max_workers cfg"
    using that by (auto simp: n clamp_def min_def max_def)
  with n r show ?thesis
    by blast
qed

theorem rate_split_witness:
  "num_workers Map.empty 10000 = 10 \<and> rate_per_worker Map.empty 10000 = Inr 1000 \<and>
   num_workers Map.empty 500 = 1 \<and> rate_per_worker Map.empty 500 = Inr 500 \<and>
   num_workers Map.empty 200000 = 50 \<and> rate_per_worker Map.empty 200000 = Inr 4000"
proof -
  have cap: "max_workers Map.empty = 50"
    by (simp add: max_workers_def get_def)
  have nz: "max_workers Map.empty \<noteq> 0"
    by (simp add: cap)
  show ?thesis
    using rate_split[OF nz, of 10000] rate_split[OF nz, of 500] rate_split[OF nz, of 200000]
    by (simp add: cap)
qed

subsection \<open>The batch plan\<close>

text \<open>
  C2, as stated, for a configuration whose minimal batch size 10 exceeds its maximal
  batch size 5, at a rate share of 1000: the target is 100, its clamp to the bounds is
  the upper bound 5, and the worker computes 10, because it applies the lower bound
  last.
\<close>

theorem batch_plan_inverted_bounds:
  "batch_size [''min_batch_size'' \<mapsto> 10, ''max_batch_size'' \<mapsto> 5] 1000 = 10 \<and>
   clamp (target_batch [''min_batch_size'' \<mapsto> 10, ''max_batch_size'' \<mapsto> 5] 1000)
     (min_batch [''min_batch_size'' \<mapsto> 10, ''max_batch_size'' \<mapsto> 5])
     (max_batch [''min_batch_size'' \<mapsto> 10, ''max_batch_size'' \<mapsto> 5]) = 5 \<and>
   clamp (1000 div 10) 10 5 = 5"
  by (simp add: batch_size_def target_batch_def min_batch_def max_batch_def get_def clamp_def)

text \<open>
  C2, amended: for every rate share of at least 0 and every configuration, the bounds
  and the fallback size are the entries \<^verbatim>\<open>min_batch_size\<close>,
  \<^verbatim>\<open>max_batch_size\<close> and \<^verbatim>\<open>batch_size_per_1k_rate\<close> of the
  configuration, 1, 1000 and 100 where absent; the target is \<open>rate div 10\<close> for a
  positive rate and the fallback size at rate 0. Where the minimum does not exceed the
  maximum, the batch size is the clamp of the target to the bounds, and lies within them;
  where the minimum exceeds the maximum, the batch size is the minimum. The pacing
  interval is \<open>batch_size / rate\<close> seconds for a positive rate and 10 ms at rate 0.
\<close>

theorem batch_plan:
  "0 \<le> rate \<Longrightarrow>
     (get cfg ''min_batch_size'' 1 \<le> get cfg ''max_batch_size'' 1000 \<longrightarrow>
        batch_size cfg rate =
          clamp (if 0 < rate then rate div 10 else get cfg ''batch_size_per_1k_rate'' 100)
            (get cfg ''min_batch_size'' 1) (get cfg ''max_batch_size'' 1000) \<and>
        get cfg ''min_batch_size'' 1 \<le> batch_size cfg rate \<and>
        batch_size cfg rate \<le> get cfg ''max_batch_size'' 1000) \<and>
     (get cfg ''max_batch_size'' 1000 < get cfg ''min_batch_size'' 1 \<longrightarrow>
        batch_size cfg rate = get cfg ''min_batch_size'' 1) \<and>
     sleep_time cfg rate =
       (if 0 < rate then of_int (batch_size cfg rate) / of_int rate else 1 / 100)"
proof -
  have cl: "batch_size cfg rate =
        clamp (if 0 < rate then rate div 10 else get cfg ''batch_size_per_1k_rate'' 100)
          (get cfg ''min_batch_size'' 1) (get cfg ''max_batch_size'' 1000) \<and>
      get cfg ''min_batch_size'' 1 \<le> batch_size cfg rate \<and>
      batch_size cfg rate \<le> get cfg ''max_batch_size'' 1000"
    if "get cfg ''min_batch_size'' 1 \<le> get cfg ''max_batch_size'' 1000"
    using that
    by (auto simp: batch_size_def target_batch_def min_batch_def max_batch_def
        batch_size_per_1k_def clamp_def min_def max_def)
  have inv: "batch_size cfg rate = get cfg ''min_batch_size'' 1"
    if "get cfg ''max_batch_size'' 1000 < get cfg ''min_batch_size'' 1"
    using that by (auto simp: batch_size_def min_batch_def max_batch_def min_def max_def)
  have sl: "sleep_time cfg rate =
       (if 0 < rate then of_int (batch_size cfg rate) / of_int rate else 1 / 100)"
    by (simp add: sleep_time_def)
  from cl inv sl show ?thesis
    by blast
qed

theorem batch_plan_witness:
  "batch_size Map.empty 1000 = 100 \<and> sleep_time Map.empty 1000 = 1 / 10 \<and>
   batch_size Map.empty 0 = 100 \<and> sleep_time Map.empty 0 = 1 / 100 \<and>
   batch_size Map.empty 20000 = 1000 \<and> sleep_time Map.empty 20000 = 1 / 20 \<and>
   batch_size [''min_batch_size'' \<mapsto> 200, ''max_batch_size'' \<mapsto> 500,
     ''batch_size_per_1k_rate'' \<mapsto> 700] 1000 = 200 \<and>
   sleep_time [''min_batch_size'' \<mapsto> 200, ''max_batch_size'' \<mapsto> 500,
     ''batch_size_per_1k_rate'' \<mapsto> 700] 1000 = 1 / 5 \<and>
   batch_size [''min_batch_size'' \<mapsto> 200, ''max_batch_size'' \<mapsto> 500,
     ''batch_size_per_1k_rate'' \<mapsto> 700] 0 = 500 \<and>
   batch_size [''min_batch_size'' \<mapsto> 200, ''max_batch_size'' \<mapsto> 500,
     ''batch_size_per_1k_rate'' \<mapsto> 700] 3000 = 300 \<and>
   batch_size [''min_batch_size'' \<mapsto> 10, ''max_batch_size'' \<mapsto> 5] 1000 = 10 \<and>
   sleep_time [''min_batch_size'' \<mapsto> 10, ''max_batch_size'' \<mapsto> 5] 1000 = 1 / 100"
proof -
  have r1: "(0::int) \<le> 1000" and r2: "(0::int) \<le> 0" and r3: "(0::int) \<le> 20000"
    and r4: "(0::int) \<le> 3000"
    by simp_all
  show ?thesis
    using batch_plan[OF r1, of Map.empty] batch_plan[OF r2, of Map.empty]
      batch_plan[OF r3, of Map.empty]
      batch_plan[OF r1, of "[''min_batch_size'' \<mapsto> 200, ''max_batch_size'' \<mapsto> 500,
        ''batch_size_per_1k_rate'' \<mapsto> 700]"]
      batch_plan[OF r2, of "[''min_batch_size'' \<mapsto> 200, ''max_batch_size'' \<mapsto> 500,
        ''batch_size_per_1k_rate'' \<mapsto> 700]"]
      batch_plan[OF r4, of "[''min_batch_size'' \<mapsto> 200, ''max_batch_size'' \<mapsto> 500,
        ''batch_size_per_1k_rate'' \<mapsto> 700]"]
      batch_plan[OF r1, of "[''min_batch_size'' \<mapsto> 10, ''max_batch_size'' \<mapsto> 5]"]
    by (simp add: get_def clamp_def)
qed

subsection \<open>The sink wrapper\<close>

lemma await_Inr: "await oc handed c = Inr r \<longleftrightarrow> oc = Completes \<and> c = Inr r"
  by (cases oc) (simp_all add: await_def)

lemma await_Inl:
  "await oc handed c = Inl (e, hs) \<longleftrightarrow>
     (oc = Raises \<and> e = SinkError \<and> hs = handed) \<or>
     (oc = Cancelled \<and> e = CancelledError \<and> hs = handed) \<or>
     (oc = Completes \<and> c = Inl (e, hs))"
  by (cases oc) (auto simp: await_def)

lemma add_messages_concat:
  "add_messages p ms s = Inr s' \<Longrightarrow>
     concat (delivered s' @ [event_data_batch s']) =
     concat (delivered s @ [event_data_batch s]) @ ms"
proof (induction ms arbitrary: s)
  case Nil
  then show ?case by simp
next
  case (Cons m ms)
  show ?case
  proof (cases "accepts p (event_data_batch s) m")
    case True
    with Cons.prems
    have "add_messages p ms (s\<lparr>event_data_batch := event_data_batch s @ [m]\<rparr>) = Inr s'"
      by simp
    from Cons.IH[OF this] show ?thesis by simp
  next
    case False
    with Cons.prems
    have "accepts p [] m" and
      "add_messages p ms \<lparr>event_data_batch = [m], created = Suc (created s),
          sent = Suc (sent s), delivered = delivered s @ [event_data_batch s]\<rparr> = Inr s'"
      by (auto simp: await_Inr split: if_splits)
    from Cons.IH[OF this(2)] show ?thesis by simp
  qed
qed

lemma add_messages_handed:
  "add_messages p ms s = Inl (e, hs) \<Longrightarrow>
     \<exists>rest. concat (delivered s) @ event_data_batch s @ ms = concat hs @ rest"
proof (induction ms arbitrary: s)
  case Nil
  then show ?case by simp
next
  case (Cons m ms)
  show ?case
  proof (cases "accepts p (event_data_batch s) m")
    case True
    with Cons.prems
    have "add_messages p ms (s\<lparr>event_data_batch := event_data_batch s @ [m]\<rparr>) = Inl (e, hs)"
      by simp
    from Cons.IH[OF this] show ?thesis by simp
  next
    case False
    with Cons.prems consider
      (send) "hs = delivered s" |
      (create) "hs = delivered s @ [event_data_batch s]" |
      (loop) "add_messages p ms \<lparr>event_data_batch = [m], created = Suc (created s),
          sent = Suc (sent s), delivered = delivered s @ [event_data_batch s]\<rparr> = Inl (e, hs)"
      by (auto simp: await_Inl split: if_splits)
    then show ?thesis
    proof cases
      case send
      then show ?thesis by simp
    next
      case create
      then show ?thesis by simp
    next
      case loop
      from Cons.IH[OF this] show ?thesis by simp
    qed
  qed
qed

lemma send_batch_body_Inr:
  "send_batch_body p messages = Inr r \<Longrightarrow>
     sent_count r = int (length messages) \<and> \<not> error_logged r \<and> concat (sub_batches r) = messages"
  unfolding send_batch_body_def
  by (auto simp: await_Inr split: sum.splits if_splits dest!: add_messages_concat)

lemma send_batch_body_Inl:
  "send_batch_body p messages = Inl (e, hs) \<Longrightarrow> \<exists>rest. messages = concat hs @ rest"
  unfolding send_batch_body_def
  by (auto simp: await_Inl split: sum.splits if_splits
      dest!: add_messages_concat add_messages_handed)

lemma handed_to_service_body:
  "\<exists>rest. messages = concat (handed_to_service (send_batch_body p messages)) @ rest"
proof (cases "send_batch_body p messages")
  case (Inl a)
  obtain e hs where "a = (e, hs)"
    by (cases a)
  with Inl show ?thesis
    using send_batch_body_Inl[of p messages e hs]
    by (simp add: handed_to_service_def)
next
  case (Inr r)
  then show ?thesis
    using send_batch_body_Inr[of p messages r] by (simp add: handed_to_service_def)
qed

lemma send_batch_Inr:
  "send_batch p messages = Inr r \<Longrightarrow>
     (error_logged r \<and> sent_count r = 0 \<and> (\<exists>rest. messages = concat (sub_batches r) @ rest)) \<or>
     (\<not> error_logged r \<and> sent_count r = int (length messages) \<and>
      concat (sub_batches r) = messages)"
proof -
  assume a: "send_batch p messages = Inr r"
  show ?thesis
  proof (cases "await (close p) (handed_to_service (send_batch_body p messages))
      (send_batch_body p messages)")
    case (Inr r')
    with a have "r' = r"
      by (simp add: send_batch_def Let_def)
    with Inr have "send_batch_body p messages = Inr r"
      by (simp add: await_Inr)
    from send_batch_body_Inr[OF this] show ?thesis by simp
  next
    case (Inl x)
    obtain e hs where x: "x = (e, hs)"
      by (cases x)
    from a Inl x have r: "r = \<lparr>sent_count = 0, error_logged = True, sub_batches = hs\<rparr>"
      by (auto simp: send_batch_def Let_def split: if_splits)
    from Inl x have "hs = handed_to_service (send_batch_body p messages) \<or>
        send_batch_body p messages = Inl (e, hs)"
      by (auto simp: await_Inl)
    then have "\<exists>rest. messages = concat hs @ rest"
      using handed_to_service_body[of messages p] send_batch_body_Inl[of p messages e hs]
      by auto
    with r show ?thesis by simp
  qed
qed

lemma send_batch_Inl:
  "send_batch p messages = Inl (e, hs) \<Longrightarrow>
     e = CancelledError \<and> (\<exists>rest. messages = concat hs @ rest)"
proof -
  assume a: "send_batch p messages = Inl (e, hs)"
  then have e: "e = CancelledError" and
    b: "await (close p) (handed_to_service (send_batch_body p messages))
      (send_batch_body p messages) = Inl (CancelledError, hs)"
    by (auto simp: send_batch_def Let_def split: sum.splits if_splits)
  from b have "hs = handed_to_service (send_batch_body p messages) \<or>
      send_batch_body p messages = Inl (CancelledError, hs)"
    by (auto simp: await_Inl)
  then have "\<exists>rest. messages = concat hs @ rest"
    using handed_to_service_body[of messages p]
      send_batch_body_Inl[of p messages CancelledError hs]
    by auto
  with e show ?thesis by simp
qed

lemma accepted_nonneg: "0 \<le> accepted p messages"
  unfolding accepted_def
  by (auto split: sum.splits dest!: send_batch_Inr)

text \<open>
  C10: whatever the producer does and whatever the batch, \<^verbatim>\<open>send_batch\<close> returns
  either the length of the message list, with every message handed to the service once
  and in order however many batches that took, or 0 with the error logged; it returns no
  count strictly between, and the only exception that leaves it is the cancellation. The
  count 0 does not say that nothing was sent: the batches sent before the exception stay
  with the service, and they hold the first messages of the list, in order.
\<close>

theorem send_batch_all_or_nothing:
  "(send_batch p messages = Inr r \<longrightarrow>
      (sent_count r = int (length messages) \<and> \<not> error_logged r \<and>
       concat (sub_batches r) = messages) \<or>
      (sent_count r = 0 \<and> error_logged r \<and>
       (\<exists>rest. messages = concat (sub_batches r) @ rest))) \<and>
   (send_batch p messages = Inl (e, handed) \<longrightarrow>
      e = CancelledError \<and> (\<exists>rest. messages = concat handed @ rest)) \<and>
   (accepted p messages = int (length messages) \<or> accepted p messages = 0)"
proof -
  have "accepted p messages = int (length messages) \<or> accepted p messages = 0"
    unfolding accepted_def by (auto split: sum.splits dest!: send_batch_Inr)
  then show ?thesis
    using send_batch_Inr[of p messages r] send_batch_Inl[of p messages e handed] by blast
qed

theorem send_batch_all_or_nothing_witness:
  "send_batch two_per_batch [''a'', ''b'', ''c''] =
     Inr \<lparr>sent_count = 3, error_logged = False, sub_batches = [[''a'', ''b''], [''c'']]\<rparr> \<and>
   accepted two_per_batch [''a'', ''b'', ''c''] = 3 \<and>
   send_batch second_send_fails [''a'', ''b'', ''c''] =
     Inr \<lparr>sent_count = 0, error_logged = True, sub_batches = [[''a'', ''b'']]\<rparr> \<and>
   accepted second_send_fails [''a'', ''b'', ''c''] = 0 \<and>
   send_batch failing_sink [''a'', ''b'', ''c''] =
     Inr \<lparr>sent_count = 0, error_logged = True, sub_batches = []\<rparr> \<and>
   accepted failing_sink [''a'', ''b'', ''c''] = 0"
proof -
  have s: "send_batch two_per_batch [''a'', ''b'', ''c''] =
     Inr \<lparr>sent_count = 3, error_logged = False, sub_batches = [[''a'', ''b''], [''c'']]\<rparr>"
    by (simp add: send_batch_def send_batch_body_def await_def two_per_batch_def
        handed_to_service_def)
  have h: "send_batch second_send_fails [''a'', ''b'', ''c''] =
     Inr \<lparr>sent_count = 0, error_logged = True, sub_batches = [[''a'', ''b'']]\<rparr>"
    by (simp add: send_batch_def send_batch_body_def await_def second_send_fails_def
        handed_to_service_def)
  have f: "send_batch failing_sink [''a'', ''b'', ''c''] =
     Inr \<lparr>sent_count = 0, error_logged = True, sub_batches = []\<rparr>"
    by (simp add: send_batch_def send_batch_body_def await_def failing_sink_def
        handed_to_service_def)
  from send_batch_all_or_nothing[of two_per_batch "[''a'', ''b'', ''c'']"
      "\<lparr>sent_count = 3, error_logged = False, sub_batches = [[''a'', ''b''], [''c'']]\<rparr>"]
    send_batch_all_or_nothing[of second_send_fails "[''a'', ''b'', ''c'']"
      "\<lparr>sent_count = 0, error_logged = True, sub_batches = [[''a'', ''b'']]\<rparr>"]
    s h f
  show ?thesis by (simp add: accepted_def)
qed

subsection \<open>The statistics\<close>

lemma perform_total: "total_sent (shared (perform op g)) = total_sent (shared g) + recorded op"
proof (cases op)
  case (Worker_records p messages)
  then show ?thesis
    by (simp add: accepted_def worker_update_def split: sum.splits)
next
  case (Reporter_ticks now)
  then show ?thesis
    by (auto simp: stats_reporter_tick_def Let_def split: sum.splits option.splits)
qed (simp_all add: stats_reporter_start_def signal_handler_def)

lemma recorded_nonneg: "0 \<le> recorded op"
  by (cases op) (simp_all add: accepted_nonneg)

lemma run_Nil: "run [] g = g"
  by (simp add: run_def)

lemma run_Cons: "run (op # ops) g = run ops (perform op g)"
  by (simp add: run_def)

lemma run_total:
  "total_sent (shared (run ops g)) = total_sent (shared g) + sum_list (map recorded ops)"
  by (induction ops arbitrary: g) (simp_all add: run_Nil run_Cons perform_total)

lemma sum_recorded_nonneg: "0 \<le> sum_list (map recorded ops)"
  by (induction ops) (simp_all add: recorded_nonneg)

lemma emit_total: "total_sent (fst (snd (emit evs r))) = total_sent (fst (snd r))"
  by (cases r) (simp add: emit_def)

lemma worker_total:
  "total_sent st \<le> total_sent (fst (snd (message_sender_worker cfg rate its st)))"
proof (induction its arbitrary: st)
  case Nil
  then show ?case by simp
next
  case (Cons it its)
  have step: "total_sent st \<le> total_sent (worker_update (sent_count r) st)"
    if "send_batch (sink it) ms = Inr r" for ms r
    using send_batch_Inr[OF that] by (auto simp: worker_update_def)
  show ?case
    using Cons.IH step
    by (auto simp: emit_total Let_def split: sum.splits intro: order_trans)
qed

text \<open>
  C7: after any sequence of operations on the process-wide state the total is the
  initial total plus the sum of the counts the workers recorded, each of them at least 0;
  no single operation (worker update, reporter start or tick, signal, final statistics)
  lowers it, and neither does a run of the worker's loop.
\<close>

theorem total_sent_monotone:
  "total_sent (shared (run ops g)) = total_sent (shared g) + sum_list (map recorded ops) \<and>
   total_sent (shared g) \<le> total_sent (shared (run ops g)) \<and>
   total_sent (shared g) \<le> total_sent (shared (perform op g)) \<and>
   0 \<le> recorded op \<and>
   total_sent st \<le> total_sent (fst (snd (message_sender_worker cfg rate its st)))"
  using sum_recorded_nonneg[of ops]
  by (simp add: run_total perform_total recorded_nonneg worker_total)

theorem total_sent_monotone_witness:
  "total_sent (shared (run [Reporter_starts 10, Worker_records two_per_batch [''a'', ''b'', ''c''],
       Reporter_ticks 11, Worker_records failing_sink [''d''], Signal, Final_statistics 12] idle)) = 3"
proof -
  have a: "accepted two_per_batch [''a'', ''b'', ''c''] = 3"
    by (simp add: accepted_def send_batch_def send_batch_body_def await_def two_per_batch_def
        handed_to_service_def)
  have f: "accepted failing_sink [''d''] = 0"
    by (simp add: accepted_def send_batch_def send_batch_body_def await_def failing_sink_def
        handed_to_service_def)
  from total_sent_monotone[of "[Reporter_starts 10, Worker_records two_per_batch [''a'', ''b'', ''c''],
       Reporter_ticks 11, Worker_records failing_sink [''d''], Signal, Final_statistics 12]" idle]
  show ?thesis
    by (simp add: a f idle_def initial_stats_def)
qed

subsection \<open>Shutdown\<close>

lemma shutdown_perform: "shutdown_event g \<Longrightarrow> shutdown_event (perform op g)"
  by (cases op) (auto simp: signal_handler_def split: sum.splits)

lemma shutdown_run: "shutdown_event g \<Longrightarrow> shutdown_event (run ops g)"
  by (induction ops arbitrary: g) (simp_all add: run_Nil run_Cons shutdown_perform)

text \<open>
  C8: the signal handler sets the shutdown event; a second signal leaves the event set
  and the statistics, hence the final summary read at any time, as the first left them
  (it prints its notice again and fails nowhere); the same holds for a signal after the
  configured duration has elapsed; and no operation of the program clears the event once
  it is set.
\<close>

theorem shutdown_idempotent:
  "shutdown_event (signal_handler g) \<and>
   shutdown_event (signal_handler (signal_handler g)) \<and>
   shared (signal_handler (signal_handler g)) = shared (signal_handler g) \<and>
   final_statistics now (shared (signal_handler (signal_handler g))) =
     final_statistics now (shared (signal_handler g)) \<and>
   shared (perform Signal (perform Duration_elapsed g)) = shared (perform Duration_elapsed g) \<and>
   (shutdown_event g \<longrightarrow> shutdown_event (run ops g))"
  by (simp add: signal_handler_def shutdown_run)

theorem shutdown_idempotent_witness:
  "shutdown_event (run [Signal, Reporter_ticks 3, Signal, Final_statistics 4]
     (perform (Reporter_starts 1) idle))"
proof -
  have "shutdown_event (perform Signal (perform (Reporter_starts 1) idle))"
    by (simp add: signal_handler_def)
  with shutdown_idempotent[of "perform Signal (perform (Reporter_starts 1) idle)" 0
      "[Reporter_ticks 3, Signal, Final_statistics 4]"]
  show ?thesis by (simp add: run_def)
qed

subsection \<open>The reporter\<close>

text \<open>
  C9: a tick of the reporter reports the window count and changes only the window
  counter, which becomes 0, and the time of the last report; the total and the start time
  stay as they were, and a tick after the reporter has started always succeeds. The final
  statistics change nothing of the statistics or the shutdown event.
\<close>

theorem stats_reporter_tick_frame:
  "(stats_reporter_tick now st = Inr (line, st') \<longrightarrow>
      st' = st\<lparr>last_second_count := 0, last_stats_time := Some now\<rparr> \<and>
      current_rate line = last_second_count st \<and> total line = total_sent st \<and>
      last_second_count st' = 0 \<and>
      total_sent st' = total_sent st \<and> start_time st' = start_time st) \<and>
   (start_time st \<noteq> None \<longrightarrow> (\<exists>line st'. stats_reporter_tick now st = Inr (line, st'))) \<and>
   shared (perform (Final_statistics now) g) = shared g \<and>
   shutdown_event (perform (Final_statistics now) g) = shutdown_event g"
  by (auto simp: stats_reporter_tick_def Let_def split: option.splits)

theorem stats_reporter_tick_frame_witness:
  "stats_reporter_tick 12 \<lparr>total_sent = 7, last_second_count = 3, start_time = Some 10,
       last_stats_time = Some 11\<rparr> =
     Inr (\<lparr>elapsed = 2, current_rate = 3, avg_rate = 7 / 2, total = 7\<rparr>,
          \<lparr>total_sent = 7, last_second_count = 0, start_time = Some 10,
           last_stats_time = Some 12\<rparr>)"
proof -
  have "\<exists>line st'. stats_reporter_tick 12 \<lparr>total_sent = 7, last_second_count = 3,
      start_time = Some 10, last_stats_time = Some 11\<rparr> = Inr (line, st')"
    using stats_reporter_tick_frame[of 12 "\<lparr>total_sent = 7, last_second_count = 3,
      start_time = Some 10, last_stats_time = Some 11\<rparr>"] by simp
  then show ?thesis
    by (simp add: stats_reporter_tick_def)
qed

subsection \<open>Concurrent callers\<close>

lemma sum_todo_step:
  assumes "i < (k::nat)" "todo i \<noteq> (0::nat)"
  shows "(\<Sum>j<k. int ((todo(i := todo i - 1)) j)) = (\<Sum>j<k. int (todo j)) - 1"
proof -
  have i: "i \<in> {..<k}" using assms by simp
  have "(\<Sum>j<k. int ((todo(i := todo i - 1)) j)) =
        int ((todo(i := todo i - 1)) i) + (\<Sum>j\<in>{..<k} - {i}. int ((todo(i := todo i - 1)) j))"
    by (rule sum.remove[OF _ i]) simp
  also have "int ((todo(i := todo i - 1)) i) = int (todo i - 1)"
    by simp
  also have "(\<Sum>j\<in>{..<k} - {i}. int ((todo(i := todo i - 1)) j)) =
        (\<Sum>j\<in>{..<k} - {i}. int (todo j))"
    by (rule sum.cong) simp_all
  also have "int (todo i - 1) + (\<Sum>j\<in>{..<k} - {i}. int (todo j)) =
        (int (todo i) + (\<Sum>j\<in>{..<k} - {i}. int (todo j))) - 1"
    using assms by simp
  also have "int (todo i) + (\<Sum>j\<in>{..<k} - {i}. int (todo j)) = (\<Sum>j<k. int (todo j))"
    by (rule sum.remove[OF _ i, symmetric]) simp
  finally show ?thesis .
qed

lemma resume_add_sent:
  "resume (add_sent n @ prog) (reg, st) = (prog, last_second_count st, worker_update n st)"
  by (simp add: add_sent_def worker_update_def)

lemma resume_caller:
  "resume (caller (Suc j)) (reg, st) = (caller j, last_second_count st, worker_update 1 st)"
  by (simp add: caller_def resume_add_sent)

lemma caller_0: "caller 0 = []"
  by (simp add: caller_def)

lemma caller_inj: "caller a = caller b \<Longrightarrow> a = b"
proof -
  have "length (caller j) = 5 * j" for j
    by (induction j) (simp_all add: caller_def add_sent_def)
  then show "caller a = caller b \<Longrightarrow> a = b"
    by (metis mult_cancel1 zero_neq_numeral)
qed

lemma run_tasks_invariant:
  "run_tasks schedule tasks st = (tasks', st') \<Longrightarrow>
   \<forall>i. program (tasks i) = caller (n i) \<Longrightarrow> \<forall>i\<ge>k. n i = 0 \<Longrightarrow>
     \<exists>n'. (\<forall>i. program (tasks' i) = caller (n' i)) \<and> (\<forall>i\<ge>k. n' i = 0) \<and>
       total_sent st' + (\<Sum>j<k. int (n' j)) = total_sent st + (\<Sum>j<k. int (n j)) \<and>
       last_second_count st' + (\<Sum>j<k. int (n' j)) =
         last_second_count st + (\<Sum>j<k. int (n j))"
proof (induction schedule arbitrary: tasks st n)
  case Nil
  then show ?case by auto
next
  case (Cons i schedule)
  show ?case
  proof (cases "n i")
    case 0
    with Cons.prems(2) have p: "program (tasks i) = []"
      by (simp add: caller_0)
    have same: "tasks(i := \<lparr>program = [], register = register (tasks i)\<rparr>) = tasks"
      using p by (auto simp: fun_eq_iff)
    from Cons.prems(1) p have "run_tasks schedule tasks st = (tasks', st')"
      by (simp add: same)
    from Cons.IH[OF this Cons.prems(2) Cons.prems(3)] show ?thesis .
  next
    case (Suc j)
    with Cons.prems(3) have ik: "i < k"
      by (metis not_le old.nat.distinct(2))
    from Suc Cons.prems(2) have p: "program (tasks i) = caller (Suc j)"
      by simp
    let ?tasks = "tasks(i := \<lparr>program = caller j, register = last_second_count st\<rparr>)"
    from Cons.prems(1) p have r: "run_tasks schedule ?tasks (worker_update 1 st) = (tasks', st')"
      by (simp add: resume_caller)
    have a: "\<forall>x. program (?tasks x) = caller ((n(i := j)) x)"
      using Cons.prems(2) by simp
    have z: "\<forall>x\<ge>k. (n(i := j)) x = 0"
      using Cons.prems(3) ik by simp
    have s: "(\<Sum>x<k. int ((n(i := j)) x)) = (\<Sum>x<k. int (n x)) - 1"
      using sum_todo_step[of i k n, OF ik] Suc by simp
    from Cons.IH[OF r a z] s show ?thesis
      by (simp add: worker_update_def)
  qed
qed

text \<open>
  C6: for every number of callers \<open>k\<close>, every number of calls \<open>m\<close> and every schedule of
  the event loop after which each of the \<open>k\<close> callers has made its \<open>m\<close> updates of 1,
  the total (and the window count) has grown by exactly \<open>k * m\<close>: no update is lost,
  because a caller is never suspended between the read and the write of a counter.
\<close>

theorem concurrent_updates_exact:
  "run_tasks schedule (spawn k m) st = (tasks, st') \<Longrightarrow> finished k tasks \<Longrightarrow>
     total_sent st' = total_sent st + int (k * m) \<and>
     last_second_count st' = last_second_count st + int (k * m)"
proof -
  assume r: "run_tasks schedule (spawn k m) st = (tasks, st')" and f: "finished k tasks"
  have a: "\<forall>i. program (spawn k m i) = caller (if i < k then m else 0)"
    by (simp add: spawn_def caller_0)
  have z: "\<forall>i\<ge>k. (if i < k then m else 0) = 0"
    by simp
  from run_tasks_invariant[OF r a z] obtain n' where
    n: "\<forall>i. program (tasks i) = caller (n' i)" and
    t: "total_sent st' + (\<Sum>j<k. int (n' j)) = total_sent st + (\<Sum>j<k. int (if j < k then m else 0))" and
    w: "last_second_count st' + (\<Sum>j<k. int (n' j)) =
         last_second_count st + (\<Sum>j<k. int (if j < k then m else 0))"
    by blast
  have "n' j = 0" if "j < k" for j
  proof -
    from f that have "program (tasks j) = []"
      by (simp add: finished_def list_all_iff)
    with n have "caller (n' j) = caller 0"
      by (simp add: caller_0)
    then show ?thesis
      by (rule caller_inj)
  qed
  then have "(\<Sum>j<k. int (n' j)) = 0"
    by simp
  with t w show ?thesis
    by simp
qed

theorem concurrent_updates_exact_witness:
  "finished 3 (fst (run_tasks [0, 1, 1, 2, 0, 2] (spawn 3 2) initial_stats)) \<and>
   total_sent (snd (run_tasks [0, 1, 1, 2, 0, 2] (spawn 3 2) initial_stats)) = 6"
proof -
  obtain tasks st' where r: "run_tasks [0, 1, 1, 2, 0, 2] (spawn 3 2) initial_stats = (tasks, st')"
    by (cases "run_tasks [0, 1, 1, 2, 0, 2] (spawn 3 2) initial_stats")
  have f: "finished 3 (fst (run_tasks [0, 1, 1, 2, 0, 2] (spawn 3 2) initial_stats))"
    by (simp add: spawn_def caller_def add_sent_def finished_def numeral_2_eq_2 upt_rec)
  with r have "finished 3 tasks"
    by simp
  from concurrent_updates_exact[OF r this] r f show ?thesis
    by (simp add: initial_stats_def)
qed

text \<open>
  The exactness rests on that: two tasks that await between the read and the write of
  the total, resumed in turn, leave a total of 1 after their two updates.
\<close>

lemma lost_update_with_await_between:
  "total_sent (snd (run_tasks [0, 1, 0, 1] (\<lambda>i. \<lparr>program = racy, register = 0\<rparr>)
     initial_stats)) = 1 \<and>
   finished 2 (fst (run_tasks [0, 1, 0, 1] (\<lambda>i. \<lparr>program = racy, register = 0\<rparr>)
     initial_stats))"
  by (auto simp: racy_def initial_stats_def finished_def list_all_iff)

subsection \<open>The worker and a failing sink\<close>

lemma worker_update_0: "worker_update 0 st = st"
  by (simp add: worker_update_def)

lemma emit_emit: "emit a (emit b r) = emit (a @ b) r"
  by (cases r) (simp add: emit_def)

lemma emit_Nil: "emit [] r = r"
  by (cases r) (simp add: emit_def)

lemma failed_pass_step:
  assumes "sink_fails cfg rate it"
  shows "message_sender_worker cfg rate (it # its) st =
           emit (failed_pass cfg rate it) (message_sender_worker cfg rate its st)"
proof -
  from assms obtain messages r where
    g: "generate_batch (generated it) (batch_size cfg rate) = Inr messages" and
    s: "send_batch (sink it) messages = Inr r" and l: "error_logged r" and
    n: "\<not> shutdown_seen it" "\<not> cancelled_asleep it"
    by (auto simp: sink_fails_def split: sum.splits)
  from send_batch_Inr[OF s] l have r: "sent_count r = 0"
    by auto
  show ?thesis
    using g s l n r
    by (simp add: failed_pass_def fresh_batch_def handed_over_def handed_to_service_def
        worker_update_0 Let_def)
qed

lemma failed_passes:
  "list_all (sink_fails cfg rate) its \<Longrightarrow>
     message_sender_worker cfg rate (its @ rest) st =
       emit (concat (map (failed_pass cfg rate) its)) (message_sender_worker cfg rate rest st)"
proof (induction its)
  case Nil
  then show ?case by (simp add: emit_Nil)
next
  case (Cons it its)
  then show ?case
    by (simp add: failed_pass_step emit_emit del: message_sender_worker.simps)
qed

lemma handed_over_fresh:
  "\<exists>rest. fresh_batch cfg rate it = concat (handed_over cfg rate it) @ rest"
proof (cases "send_batch (sink it) (fresh_batch cfg rate it)")
  case (Inl a)
  obtain e hs where "a = (e, hs)"
    by (cases a)
  with Inl show ?thesis
    using send_batch_Inl[of "sink it" "fresh_batch cfg rate it" e hs]
    by (simp add: handed_over_def handed_to_service_def)
next
  case (Inr r)
  then show ?thesis
    using send_batch_Inr[of "sink it" "fresh_batch cfg rate it" r]
    by (auto simp: handed_over_def handed_to_service_def)
qed

lemma failing_pass_batch: "generate_batch (generated failing_pass) (batch_size Map.empty 5) = Inr [''{}'']"
  by (simp add: generate_batch_def failing_pass_def batch_size_def target_batch_def
      min_batch_def max_batch_def get_def)

lemma failing_sink_send:
  "send_batch failing_sink ms = Inr \<lparr>sent_count = 0, error_logged = True, sub_batches = []\<rparr>"
  by (simp add: send_batch_def send_batch_body_def await_def failing_sink_def
      handed_to_service_def)

lemma sleep_5: "sleep_time Map.empty 5 = 1 / 5"
  by (simp add: sleep_time_def batch_size_def target_batch_def
      min_batch_def max_batch_def get_def)

lemma batches_of_3_plan:
  "batch_size batches_of_3 5 = 3" "sleep_time batches_of_3 5 = 3 / 5"
  by (simp_all add: sleep_time_def batch_size_def target_batch_def
      min_batch_def max_batch_def get_def batches_of_3_def)

lemma half_sent_pass_batch:
  "generate_batch (generated half_sent_pass) 3 = Inr [''a'', ''b'', ''c'']"
proof -
  have "[0..<nat 3] = [0, 1, 2]"
    by (simp add: upt_rec)
  then show ?thesis
    by (simp add: generate_batch_def half_sent_pass_def)
qed

lemma second_send_fails_send:
  "send_batch second_send_fails [''a'', ''b'', ''c''] =
     Inr \<lparr>sent_count = 0, error_logged = True, sub_batches = [[''a'', ''b'']]\<rparr>"
  by (simp add: send_batch_def send_batch_body_def await_def second_send_fails_def
      handed_to_service_def)

text \<open>
  C5, as stated, at a rate share of 5 messages a second with the default configuration:
  the sink fails in both passes, and the worker pauses for its pacing interval of 200 ms
  after each; the trace has no pause of 100 ms.
\<close>

theorem sink_failure_pause_is_pacing:
  "message_sender_worker Map.empty 5 [failing_pass, failing_pass] initial_stats =
     (Running, initial_stats,
      [Generated [''{}''], Submitted [], LogError ''Error sending batch'', Sleep (1 / 5),
       Generated [''{}''], Submitted [], LogError ''Error sending batch'', Sleep (1 / 5)])"
  using failing_pass_batch
  by (simp add: failing_sink_send sleep_5 emit_def worker_update_0 failing_pass_def)

text \<open>
  C5, amended: when the sink fails, \<^verbatim>\<open>send_batch\<close> logs the error and returns 0,
  the worker records 0 and pauses for its pacing interval (it does not pause where that
  interval is not positive); the worker does not end: after
  any number of passes with a failing sink it is still running, with the statistics
  unchanged, and it leaves its loop in the pass that sees the shutdown event. Each pass
  generates its own batch, and what it had handed to the service before the sink failed
  are the first messages of that batch: no pass submits a message of an earlier one. The
  fixed pause of 100 ms follows only an exception raised in the worker's own loop, such
  as one of the generator, other than a cancellation; a cancellation raised there ends
  the worker at once, with no log and no pause.
\<close>

theorem worker_outlives_sink_failures:
  "list_all (sink_fails cfg rate) its \<Longrightarrow>
     message_sender_worker cfg rate its st =
       (Running, st, concat (map (failed_pass cfg rate) its)) \<and>
     (shutdown_seen it \<longrightarrow>
        message_sender_worker cfg rate (its @ it # rest) st =
          (Exited, st, concat (map (failed_pass cfg rate) its))) \<and>
     (\<forall>d. Sleep d \<in> set (concat (map (failed_pass cfg rate) its)) \<longrightarrow> d = sleep_time cfg rate) \<and>
     (\<forall>pass \<in> set its.
        \<exists>unsent. fresh_batch cfg rate pass = concat (handed_over cfg rate pass) @ unsent) \<and>
     (\<not> shutdown_seen it \<and> \<not> cancelled_asleep it \<and> e \<noteq> CancelledError \<and>
      generate_batch (generated it) (batch_size cfg rate) = Inl e \<longrightarrow>
        message_sender_worker cfg rate (it # rest) st =
          emit [LogError ''Worker error'', Sleep (1 / 10)] (message_sender_worker cfg rate rest st)) \<and>
     (\<not> shutdown_seen it \<and>
      generate_batch (generated it) (batch_size cfg rate) = Inl CancelledError \<longrightarrow>
        message_sender_worker cfg rate (it # rest) st = (Exited, st, []))"
proof -
  assume a: "list_all (sink_fails cfg rate) its"
  have 1: "message_sender_worker cfg rate its st =
       (Running, st, concat (map (failed_pass cfg rate) its))"
    using failed_passes[OF a, of "[]" st] by (simp add: emit_def)
  have 2: "message_sender_worker cfg rate (its @ it # rest) st =
          (Exited, st, concat (map (failed_pass cfg rate) its))" if "shutdown_seen it"
    using failed_passes[OF a, of "it # rest" st] that by (simp add: emit_def)
  have 3: "d = sleep_time cfg rate"
    if "Sleep d \<in> set (concat (map (failed_pass cfg rate) its))" for d
    using that by (auto simp: failed_pass_def split: if_splits)
  have 4: "\<forall>pass \<in> set its.
        \<exists>unsent. fresh_batch cfg rate pass = concat (handed_over cfg rate pass) @ unsent"
    using handed_over_fresh by blast
  have 5: "message_sender_worker cfg rate (it # rest) st =
      emit [LogError ''Worker error'', Sleep (1 / 10)] (message_sender_worker cfg rate rest st)"
    if "\<not> shutdown_seen it \<and> \<not> cancelled_asleep it \<and> e \<noteq> CancelledError \<and>
      generate_batch (generated it) (batch_size cfg rate) = Inl e"
    using that by simp
  have 6: "message_sender_worker cfg rate (it # rest) st = (Exited, st, [])"
    if "\<not> shutdown_seen it \<and>
      generate_batch (generated it) (batch_size cfg rate) = Inl CancelledError"
    using that by simp
  from 1 2 3 4 5 6 show ?thesis by blast
qed

theorem worker_outlives_sink_failures_witness:
  "list_all (sink_fails Map.empty 5) [failing_pass, failing_pass] \<and>
   message_sender_worker Map.empty 5 [failing_pass, failing_pass] initial_stats =
     (Running, initial_stats, concat (map (failed_pass Map.empty 5) [failing_pass, failing_pass])) \<and>
   list_all (sink_fails batches_of_3 5) [half_sent_pass, half_sent_pass] \<and>
   message_sender_worker batches_of_3 5 [half_sent_pass, half_sent_pass] initial_stats =
     (Running, initial_stats,
      [Generated [''a'', ''b'', ''c''], Submitted [[''a'', ''b'']],
       LogError ''Error sending batch'', Sleep (3 / 5),
       Generated [''a'', ''b'', ''c''], Submitted [[''a'', ''b'']],
       LogError ''Error sending batch'', Sleep (3 / 5)]) \<and>
   message_sender_worker Map.empty 5 [cancelled_generation, failing_pass] initial_stats =
     (Exited, initial_stats, [])"
proof -
  have a: "list_all (sink_fails Map.empty 5) [failing_pass, failing_pass]"
    using failing_pass_batch
    by (simp add: sink_fails_def failing_sink_send) (simp add: failing_pass_def failing_sink_send)
  have s: "sink half_sent_pass = second_send_fails" "\<not> shutdown_seen half_sent_pass"
    "\<not> cancelled_asleep half_sent_pass"
    by (simp_all add: half_sent_pass_def)
  have b: "list_all (sink_fails batches_of_3 5) [half_sent_pass, half_sent_pass]"
    by (simp add: sink_fails_def batches_of_3_plan half_sent_pass_batch s second_send_fails_send)
  have f: "failed_pass batches_of_3 5 half_sent_pass =
      [Generated [''a'', ''b'', ''c''], Submitted [[''a'', ''b'']],
       LogError ''Error sending batch'', Sleep (3 / 5)]"
    by (simp add: failed_pass_def fresh_batch_def handed_over_def handed_to_service_def
        batches_of_3_plan half_sent_pass_batch s second_send_fails_send)
  have c: "\<not> shutdown_seen cancelled_generation \<and>
      generate_batch (generated cancelled_generation) (batch_size Map.empty 5) = Inl CancelledError"
    by (simp add: cancelled_generation_def generate_batch_def batch_size_def target_batch_def
      min_batch_def max_batch_def get_def)
  from worker_outlives_sink_failures[OF a, of initial_stats cancelled_generation "[failing_pass]"]
    worker_outlives_sink_failures[OF b, of initial_stats] a b f c
  show ?thesis
    by simp
qed

subsection \<open>JSON text written and read back\<close>

lemma not_digit_chars [simp]:
  "\<not> is_digit CHR ''-''" "\<not> is_digit CHR ''+''" "\<not> is_digit CHR ''.''"
  "\<not> is_digit CHR ''e''" "\<not> is_digit CHR ''E''" "\<not> is_digit CHR '',''"
  "\<not> is_digit CHR ''}''" "is_digit CHR ''0''"
  by (simp_all add: is_digit_def)

lemma below_10:
  "m < (10::nat) \<Longrightarrow>
     m = 0 \<or> m = 1 \<or> m = 2 \<or> m = 3 \<or> m = 4 \<or> m = 5 \<or> m = 6 \<or> m = 7 \<or> m = 8 \<or> m = 9"
  by arith


lemma of_char_digit_char: "(of_char (digit_char d) :: nat) = 48 + d mod 10"
proof -
  have "d mod 10 < 10" by simp
  from below_10[OF this] show ?thesis
    unfolding digit_char_def by (elim disjE) simp_all
qed

lemma is_digit_digit_char: "is_digit (digit_char d)"
  by (simp add: is_digit_def of_char_digit_char)


lemma show_nat_digits: "list_all is_digit (show_nat n)"
  by (induction n rule: show_nat.induct)
    (subst show_nat.simps, simp add: is_digit_digit_char)

























lemma number_char_simps [simp]:
  "number_char CHR ''-''" "number_char CHR ''+''" "number_char CHR ''.''" "number_char CHR ''e''"
  "\<not> number_char CHR '',''" "\<not> number_char CHR ''}''" "\<not> number_char CHR ''t''"
  "\<not> number_char CHR ''f''" "\<not> number_char CHR 0x22"
  by (simp_all add: number_char_def is_digit_def)


















subsection \<open>The messages of the generator\<close>

lemma field_name_neq [simp]:
  "''field_'' @ x \<noteq> ''timestamp''" "''field_'' @ x \<noteq> ''stockName''"
  by simp_all









lemma base_len:
  "length (dumps [(''timestamp'', PStr ''2024-01-01T00:00:00.000000+00:00''),
     (''stockName'', PStr ''AAPL'')]) = 67"
  by (simp add: dumps_def dumps_str_def dumps_value_def escape_char_def)

lemma tight_run:
  "generate_message tight ten_flags =
     Inr (dumps [(''timestamp'', PStr ''2024-01-01T00:00:00.000000+00:00''),
       (''stockName'', PStr ''AAPL''),
       (''field_0'', PBool True), (''field_1'', PBool True), (''field_2'', PBool True),
       (''field_3'', PBool True), (''field_4'', PBool True), (''field_5'', PBool True),
       (''field_6'', PBool True), (''field_7'', PBool True), (''field_8'', PBool True),
       (''field_9'', PBool True)])"
  unfolding generate_message_def
  by (simp add: base_len tight_def ten_flags_def MessageGenerator_def get_def
      random_choice_def randint_def Let_def add_fields.simps field_template_def field_json_def
      dumps_value_def show_int_def show_nat.simps digit_char_def smaller_value_def
      isinstance_str_def isinstance_int_float_def len_def)

lemma tight_fields [simp]:
  "target_size tight = 230" "size_tolerance tight = 0" "stock_symbols tight = [''AAPL'']"
  "field_count_variance tight = 5" "number_range tight = (1, 100000)"
  "string_length_range tight = (5, 15)" "float_precision tight = 2"
  by (simp_all add: tight_def MessageGenerator_def get_def)

lemma huge_numbers_fields:
  "target_size huge_numbers = 500" "size_tolerance huge_numbers = 50"
  "stock_symbols huge_numbers = [''AAPL'']" "field_count_variance huge_numbers = 5"
  "target_field_count huge_numbers = 100" "string_length_range huge_numbers = (5, 15)"
  by (simp_all add: huge_numbers_def MessageGenerator_def get_def)

lemma huge_numbers_range: "number_range huge_numbers = (1, 10 ^ 400)"
  by (simp add: huge_numbers_def MessageGenerator_def get_def del: power_numeral)

lemma huge_numbers_limits:
  "\<not> float_within_limits huge_numbers" "quotient_overflows huge_numbers"
proof -
  have a: "\<bar>(10::int) ^ 400\<bar> = 10 ^ 400"
    by simp
  have "(10::int) ^ 300 < 10 ^ 400"
    by (rule power_strict_increasing) simp_all
  then show "\<not> float_within_limits huge_numbers"
    unfolding float_within_limits_def huge_numbers_range snd_conv a by linarith
  have "(10::int) ^ 311 \<le> 10 ^ 400"
    by (rule power_increasing) simp_all
  then show "quotient_overflows huge_numbers"
    unfolding quotient_overflows_def huge_numbers_range snd_conv a .
qed

lemma huge_numbers_float:
  "template d = 1 \<Longrightarrow> field_template huge_numbers d = Inl OverflowError"
  by (simp add: field_template_def huge_numbers_limits Let_def split: prod.splits)

text \<open>
  A numeric range from 1 to \<open>10 ^ 400\<close> is not empty, and the first float drawn
  ends the call with \<^verbatim>\<open>OverflowError\<close>: \<^verbatim>\<open>max_num / 100\<close> is
  beyond the doubles.
\<close>

lemma generate_message_float_overflow:
  "generate_message huge_numbers floats_only = Inl OverflowError \<and>
   fst (number_range huge_numbers) \<le> snd (number_range huge_numbers) \<and>
   \<not> well_formed huge_numbers"
proof -
  have "generate_message huge_numbers floats_only = Inl OverflowError"
    unfolding generate_message_def
    by (simp add: huge_numbers_fields random_choice_def randint_def Let_def floats_only_def
        base_len add_fields.simps[of huge_numbers _ _ _ 67 0] huge_numbers_float)
  moreover have "fst (number_range huge_numbers) \<le> snd (number_range huge_numbers)"
    unfolding huge_numbers_range by simp
  ultimately show ?thesis
    by (simp add: well_formed_def huge_numbers_limits)
qed




subsection \<open>Candidates that would overflow\<close>

lemma plain_concat: "plain s \<Longrightarrow> concat (map escape_char s) = s"
  unfolding plain_def by (induction s) simp_all

lemma plain_take: "plain s \<Longrightarrow> plain (take n s)"
  by (auto simp: plain_def list_all_iff dest: in_set_takeD)

lemma plain_digit: "is_digit c \<Longrightarrow> escape_char c = [c]"
proof -
  assume d: "is_digit c"
  have ne: "c \<noteq> x" if "(of_char x :: nat) < 48" for x
    using d that by (auto simp: is_digit_def)
  have "c \<noteq> CHR 0x22" "c \<noteq> CHR 0x0A" "c \<noteq> CHR 0x0D" "c \<noteq> CHR 0x09" "c \<noteq> CHR 0x08"
    "c \<noteq> CHR 0x0C"
    by (rule ne, simp)+
  moreover have "c \<noteq> CHR 0x5C"
    using d by (auto simp: is_digit_def)
  moreover have "\<not> ((of_char c :: nat) < 32 \<or> (of_char c :: nat) > 126)"
    using d by (auto simp: is_digit_def)
  ultimately show ?thesis
    by (simp add: escape_char_def)
qed

lemma plain_show_nat: "plain (show_nat n)"
  using show_nat_digits[of n] by (simp add: plain_def list_all_iff plain_digit)

lemma plain_alphabet: "plain alphabet"
  by (simp add: plain_def alphabet_def escape_char_def)

lemma plain_statuses: "list_all plain statuses"
  by (simp add: plain_def statuses_def escape_char_def)

lemma plain_letters: "plain (map (\<lambda>j. alphabet ! (f j mod 62)) js)"
proof -
  have "alphabet ! (n mod 62) \<in> set alphabet" for n
    by (rule nth_mem) (simp add: alphabet_def)
  with plain_alphabet show ?thesis
    by (simp add: plain_def list_all_iff)
qed

lemma plain_status: "plain (statuses ! (n mod 5))"
proof -
  have "statuses ! (n mod 5) \<in> set statuses"
    by (rule nth_mem) (simp add: statuses_def)
  with plain_statuses show ?thesis
    by (simp add: list_all_iff)
qed

lemma plain_user: "plain (CHR ''u'' # CHR ''s'' # CHR ''e'' # CHR ''r'' # CHR ''_'' # show_nat n)"
  using plain_show_nat[of n] by (simp add: plain_def escape_char_def)

lemma plain_session:
  "plain (CHR ''s'' # CHR ''e'' # CHR ''s'' # CHR ''s'' # CHR ''i'' # CHR ''o'' # CHR ''n'' # CHR ''_'' #
     show_nat n)"
  using plain_show_nat[of n] by (simp add: plain_def escape_char_def)

lemma template_string_plain:
  assumes "field_template self d = Inr (PStr s)"
  shows "plain s"
  using assms plain_letters plain_status plain_user plain_session
  by (auto simp: field_template_def unless_refused_def Let_def
      split: prod.splits if_splits sum.splits option.splits)

lemma field_json_plain:
  "plain s \<Longrightarrow>
     int (length (field_json field_name (PStr s))) = int (length field_name) + int (length s) + 5"
  by (simp add: field_json_def dumps_value_def dumps_str_def plain_concat)

lemma smaller_value_str:
  "smaller_value self current_size field_count field_name (PStr s) r =
     (if 5 < length s \<and> 0 < target_size self - current_size - int (length field_name) - 10
      then Some (PStr (take (nat (target_size self - current_size - int (length field_name) - 10)) s))
      else None)"
  by (simp add: smaller_value_def isinstance_str_def isinstance_int_float_def len_def slice_def
      Let_def)

lemma smaller_value_other:
  "\<not> isinstance_str v \<Longrightarrow>
     smaller_value self current_size field_count field_name v r =
       (if 10 < field_count then Some (PInt (1 + int (r mod 99))) else None)"
  by (cases v) (simp_all add: smaller_value_def isinstance_str_def isinstance_int_float_def)

lemma overflowing_string:
  assumes t: "field_template self d = Inr (PStr s)"
    and o: "target_size self < current_size + int (length (field_json field_name (PStr s))) + 1"
  shows "(length s \<le> 5 \<longrightarrow> target_size self - current_size - int (length field_name) - 10 \<le> 0) \<and>
     (\<forall>v. smaller_value self current_size field_count field_name (PStr s) r = Some v \<longrightarrow>
        len v < length s \<and>
        current_size + int (length (field_json field_name v)) + 1 = target_size self - 4)"
proof -
  have p: "plain s"
    using t by (rule template_string_plain)
  have l: "int (length (field_json field_name (PStr s))) = int (length field_name) + int (length s) + 5"
    using p by (rule field_json_plain)
  have 1: "target_size self - current_size - int (length field_name) - 10 \<le> 0" if "length s \<le> 5"
    using o l that by linarith
  have 2: "len v < length s \<and>
        current_size + int (length (field_json field_name v)) + 1 = target_size self - 4"
    if v: "smaller_value self current_size field_count field_name (PStr s) r = Some v" for v
  proof -
    define n where "n = target_size self - current_size - int (length field_name) - 10"
    from v have pos: "0 < n" and v': "v = PStr (take (nat n) s)"
      by (auto simp: smaller_value_str n_def split: if_splits)
    from o l pos have short: "nat n < length s"
      unfolding n_def by linarith
    then have k: "length (take (nat n) s) = nat n"
      by simp
    have "int (length (field_json field_name (PStr (take (nat n) s)))) =
        int (length field_name) + int (nat n) + 5"
      using field_json_plain[OF plain_take[OF p], of field_name "nat n"] k by simp
    with pos short show ?thesis
      unfolding v' by (simp add: len_def n_def)
  qed
  from 1 2 show ?thesis by blast
qed

lemma add_fields_overflow:
  assumes "current_size < target_size self - size_tolerance self" "int field_count < max_fields"
    and "field_template self (rnd field_count) = Inr v"
    and "target_size self <
      current_size + int (length (field_json (''field_'' @ show_nat field_count) v)) + 1"
  shows "add_fields self rnd max_fields (message, current_size, field_count) =
     (case smaller_value self current_size field_count (''field_'' @ show_nat field_count) v
             (smaller (rnd field_count)) of
        None \<Rightarrow> Inr message
      | Some v' \<Rightarrow>
          add_fields self rnd max_fields
            (AList.update (''field_'' @ show_nat field_count) v' message,
             current_size + (int (length (field_json (''field_'' @ show_nat field_count) v)) + 1),
             Suc field_count))"
  using assms by (subst add_fields.simps) (simp add: Let_def split: option.splits)

text \<open>
  C4, as stated, with target size 230 and tolerance 0: ten fields have been added, the
  running size is 217, and the eleventh candidate, the integer 1000000003, would
  overflow. The specification's rule replaces it by a two-digit number; the code stops,
  and the message returned has the ten fields only.
\<close>

theorem numeric_after_ten_fields_stops:
  "generate_message tight ten_flags =
     Inr (dumps [(''timestamp'', PStr ''2024-01-01T00:00:00.000000+00:00''),
       (''stockName'', PStr ''AAPL''),
       (''field_0'', PBool True), (''field_1'', PBool True), (''field_2'', PBool True),
       (''field_3'', PBool True), (''field_4'', PBool True), (''field_5'', PBool True),
       (''field_6'', PBool True), (''field_7'', PBool True), (''field_8'', PBool True),
       (''field_9'', PBool True)]) \<and>
   field_template tight (draws ten_flags 10) = Inr (PInt 1000000003) \<and>
   target_size tight < 217 + int (length (field_json ''field_10'' (PInt 1000000003))) + 1 \<and>
   smaller_value tight 217 10 ''field_10'' (PInt 1000000003) 41 = None \<and>
   smaller_value_spec tight 217 10 ''field_10'' (PInt 1000000003) 41 = Some (PInt 51)"
proof -
  have "field_template tight (draws ten_flags 10) = Inr (PInt 1000000003)"
    by (simp add: field_template_def ten_flags_def Let_def)
  moreover have "target_size tight < 217 + int (length (field_json ''field_10'' (PInt 1000000003))) + 1"
    by (simp add: field_json_def dumps_value_def show_int_def show_nat.simps)
  moreover have "smaller_value tight 217 10 ''field_10'' (PInt 1000000003) 41 = None"
    by (simp add: smaller_value_def isinstance_str_def isinstance_int_float_def)
  moreover have "smaller_value_spec tight 217 10 ''field_10'' (PInt 1000000003) 41 = Some (PInt 51)"
    by (simp add: smaller_value_spec_def)
  ultimately show ?thesis
    using tight_run by simp
qed

text \<open>
  C4, amended: when the next candidate would overflow the target size, a string longer
  than 5 characters is cut to \<open>target_size - current_size - len(field_name) - 10\<close>
  characters, and appending stops if that length is not positive; a string of at most 5
  characters that overflows never has a positive length left, so it stops as well, and
  a string that was cut is shorter than before and fits (the message then has the target
  size less 4). A candidate that is not a string (an integer, a float, or a boolean,
  which Python counts as an integer) is replaced by a random integer from 1 to 99 if more
  than 10 fields have been added. In every other case appending stops: the loop returns
  the message as it is. After a replacement the loop goes on with the running size grown
  by the size of the candidate as first drawn.
\<close>

theorem overflow_handling:
  "smaller_value self current_size field_count field_name (PStr s) r =
     (if 5 < length s \<and> 0 < target_size self - current_size - int (length field_name) - 10
      then Some (PStr (take (nat (target_size self - current_size - int (length field_name) - 10)) s))
      else None) \<and>
   (\<not> isinstance_str v \<longrightarrow>
      smaller_value self current_size field_count field_name v r =
        (if 10 < field_count then Some (PInt (1 + int (r mod 99))) else None)) \<and>
   1 \<le> 1 + int (r mod 99) \<and> 1 + int (r mod 99) \<le> 99 \<and>
   (field_template self d = Inr (PStr s) \<and>
    target_size self < current_size + int (length (field_json field_name (PStr s))) + 1 \<longrightarrow>
      (length s \<le> 5 \<longrightarrow> target_size self - current_size - int (length field_name) - 10 \<le> 0) \<and>
      (\<forall>v'. smaller_value self current_size field_count field_name (PStr s) r = Some v' \<longrightarrow>
         len v' < length s \<and>
         current_size + int (length (field_json field_name v')) + 1 = target_size self - 4)) \<and>
   (current_size < target_size self - size_tolerance self \<and> int field_count < max_fields \<and>
    field_template self (rnd field_count) = Inr v \<and>
    target_size self <
      current_size + int (length (field_json (''field_'' @ show_nat field_count) v)) + 1 \<longrightarrow>
      add_fields self rnd max_fields (message, current_size, field_count) =
        (case smaller_value self current_size field_count (''field_'' @ show_nat field_count) v
                (smaller (rnd field_count)) of
           None \<Rightarrow> Inr message
         | Some v' \<Rightarrow>
             add_fields self rnd max_fields
               (AList.update (''field_'' @ show_nat field_count) v' message,
                current_size + (int (length (field_json (''field_'' @ show_nat field_count) v)) + 1),
                Suc field_count)))"
proof -
  have b: "1 \<le> 1 + int (r mod 99) \<and> 1 + int (r mod 99) \<le> 99"
  proof -
    have "r mod 99 < 99" by simp
    then show ?thesis by linarith
  qed
  show ?thesis
    using smaller_value_str[of self current_size field_count field_name s r]
      smaller_value_other[of v self current_size field_count field_name r] b
      overflowing_string[of self d s current_size field_name field_count r]
      add_fields_overflow[of current_size self field_count max_fields rnd v message]
    by blast
qed

theorem overflow_handling_witness:
  "field_template tight completed = Inr (PStr ''completed'') \<and>
   smaller_value tight 210 10 ''field_10'' (PStr ''completed'') 41 = Some (PStr ''co'') \<and>
   210 + int (length (field_json ''field_10'' (PStr ''co''))) + 1 = 226 \<and>
   smaller_value tight 217 11 ''field_11'' (PBool True) 41 = Some (PInt 42)"
proof -
  have t: "field_template tight completed = Inr (PStr ''completed'')"
    by (simp add: field_template_def completed_def Let_def statuses_def)
  have o: "target_size tight < 210 + int (length (field_json ''field_10'' (PStr ''completed''))) + 1"
    by (simp add: field_json_def dumps_value_def dumps_str_def escape_char_def)
  have n: "\<not> isinstance_str (PBool True)"
    by (simp add: isinstance_str_def)
  from overflow_handling[of tight 210 10 "''field_10''" "''completed''" 41 "PBool True" completed]
    overflow_handling[of tight 217 11 "''field_11''" "''completed''" 41 "PBool True" completed]
    t o n
  show ?thesis
    by (simp add: len_def)
qed

end
